theory Spec2Isabelle
  imports Main "HOL-Library.Word"
begin

unbundle bit_operations_syntax

section \<open>The mailbox transport of the amdxdna driver (amdxdna\_mailbox.c)\<close>

text \<open>
  A shallow embedding of \<^verbatim>\<open>src/driver/amdxdna/amdxdna_mailbox.c\<close>. Every C function that
  the properties below talk about is one definition of the same name, with the statements in
  the order of the source. The state of the C program is passed explicitly: the fields of
  \<^verbatim>\<open>struct mailbox_channel\<close>, the memory-mapped I/O space the rings and the pointer registers
  live in, the outcomes of the coming \<^verbatim>\<open>kzalloc\<close> calls, and the list of externally visible
  actions performed so far (I/O accesses, callback invocations, log calls, \<^verbatim>\<open>kfree\<close>).
\<close>

subsection \<open>Machine integers and constants\<close>

type_synonym u8 = "8 word"
type_synonym u32 = "32 word"
type_synonym u64 = "64 word"

definition ASYNC_MSG_START_ID :: u32 where "ASYNC_MSG_START_ID = 0x80000000"
definition MAGIC_VAL :: u32 where "MAGIC_VAL = 0x1D000000"
definition MAGIC_VAL_MASK :: u32 where "MAGIC_VAL_MASK = 0xFF000000"
definition MAX_MSG_ID_ENTRIES :: nat where "MAX_MSG_ID_ENTRIES = 256"
definition MSG_PROTOCOL_VERSION :: "8 word" where "MSG_PROTOCOL_VERSION = 0x1"
definition TOMBSTONE :: u32 where "TOMBSTONE = 0xDEADFACE"
definition INT_MAX :: nat where "INT_MAX = 2147483647"

text \<open>The error numbers the functions return (negated in C).\<close>

datatype errno = EINVAL | ENOMEM | ENOSPC | ENOENT | EAGAIN | ERESTARTSYS

subsection \<open>Data structures\<close>

datatype channel_res_type = CHAN_RES_X2I | CHAN_RES_I2X

text \<open>
  \<^verbatim>\<open>struct xdna_mailbox_res\<close>, \<^verbatim>\<open>struct xdna_mailbox_chann_res\<close> and
  \<^verbatim>\<open>struct xdna_mailbox_msg\<close> are declared in \<^verbatim>\<open>amdxdna_mailbox.h\<close>; the fields are the ones
  the C file reads. \<open>send_data\<close> is the caller's memory from the pointer on, byte by byte.
  A function pointer and an opaque handle are numbers; the null callback is \<open>None\<close>.
\<close>

record xdna_mailbox_res =
  ringbuf_base :: u64
  mbox_base :: u64

record xdna_mailbox_chann_res =
  rb_start_addr :: u32
  mb_head_ptr_reg :: u32
  mb_tail_ptr_reg :: u32
  rb_size :: u32

record xdna_mailbox_msg =
  m_opcode :: u32
  m_handle :: nat
  m_notify_cb :: "nat option"
  send_data :: "nat \<Rightarrow> u8"
  send_size :: u64

record xdna_mailbox_async =
  a_opcode :: u32
  a_payload :: "u8 list"

text \<open>\<^verbatim>\<open>struct xdna_msg_header\<close>: the second word is split into bit-fields.\<close>

record xdna_msg_header =
  total_size :: u32
  size' :: "11 word"
  rsvd0 :: "5 word"
  protocol_version :: "8 word"
  rsvd1 :: "8 word"
  id' :: u32
  opcode :: u32

record mailbox_pkg =
  header :: xdna_msg_header
  payload :: "u8 list"

text \<open>
  \<^verbatim>\<open>struct mailbox_msg\<close>. The object is owned by exactly one place at a time (the local
  variable of the sender, then the IDR), so it is kept by value; \<open>msg_addr\<close> is the address
  \<^verbatim>\<open>kzalloc\<close> returned for it, which is what \<^verbatim>\<open>kfree\<close> receives.
\<close>

record mailbox_msg =
  msg_addr :: nat
  handle :: nat
  notify_cb :: "nat option"
  pkg_size :: u64
  pkg :: mailbox_pkg

record mailbox_async_msg =
  async_addr :: nat
  msg :: xdna_mailbox_async

text \<open>
  The kernel's IDR: the allocated identifiers with their pointers, in ascending order of
  identifier, and the cursor of the cyclic allocation. The functions below follow
  \<^verbatim>\<open>lib/idr.c\<close>; the memory the IDR needs for its own nodes is taken to be there, so an
  allocation fails only for want of a free identifier.
\<close>

record idr =
  idr_rt :: "(nat \<times> mailbox_msg) list"
  idr_next :: nat

record mailbox =
  mres :: xdna_mailbox_res

text \<open>
  The externally visible actions. A log call is recorded as the call of the macro, whether
  or not the kernel prints it (\<^verbatim>\<open>WARN_ONCE\<close> prints the first time only).
\<close>

datatype event =
    Ioread32 u64
  | Iowrite32 u32 u64
  | Memcpy_toio u64 "u8 list"
  | Memcpy_fromio u64 nat
  | Notify_cb nat nat "u64 option" nat
  | Kfree nat
  | MB_ERR string
  | MB_DBG string "u32 list"
  | WARN_ONCE string "u32 list"
  | Trace_mbox_set_tail u32 u32
  | Trace_mbox_set_head u32 u32
  | Free_irq int
  | Destroy_workqueue
  | Kfree_channel

record mailbox_channel =
  mb :: mailbox
  res :: "channel_res_type \<Rightarrow> xdna_mailbox_chann_res"
  msix_irq :: int
  iohub_int_addr :: u32
  chan_idr :: idr
  x2i_tail :: u32
  i2x_head :: u32
  async_msg_list :: "mailbox_async_msg list"
  async_comp :: nat

record kstate = mailbox_channel +
  io :: "u64 \<Rightarrow> u8"
  allocs :: "nat option list"
  trace :: "event list"

subsection \<open>Kernel primitives\<close>

definition emit :: "event \<Rightarrow> kstate \<Rightarrow> kstate" where
  "emit e s = s\<lparr>trace := trace s @ [e]\<rparr>"

text \<open>Little-endian bytes of a 32-bit word, and back.\<close>

definition le32 :: "u32 \<Rightarrow> u8 list" where
  "le32 v = [ucast v, ucast (drop_bit 8 v), ucast (drop_bit 16 v), ucast (drop_bit 24 v)]"

fun from_le32 :: "u8 list \<Rightarrow> u32" where
  "from_le32 (b0 # b1 # b2 # b3 # _) =
     ucast b0 OR push_bit 8 (ucast b1) OR push_bit 16 (ucast b2) OR push_bit 24 (ucast b3)"
| "from_le32 _ = 0"

primrec store_bytes :: "(u64 \<Rightarrow> u8) \<Rightarrow> u64 \<Rightarrow> u8 list \<Rightarrow> (u64 \<Rightarrow> u8)" where
  "store_bytes m a [] = m"
| "store_bytes m a (b # bs) = store_bytes (m(a := b)) (a + 1) bs"

definition load_bytes :: "(u64 \<Rightarrow> u8) \<Rightarrow> u64 \<Rightarrow> nat \<Rightarrow> u8 list" where
  "load_bytes m a n = map (\<lambda>i. m (a + of_nat i)) [0..<n]"

definition iowrite32 :: "u32 \<Rightarrow> u64 \<Rightarrow> kstate \<Rightarrow> kstate" where
  "iowrite32 v a s = emit (Iowrite32 v a) (s\<lparr>io := store_bytes (io s) a (le32 v)\<rparr>)"

definition ioread32 :: "u64 \<Rightarrow> kstate \<Rightarrow> u32 \<times> kstate" where
  "ioread32 a s = (from_le32 (load_bytes (io s) a 4), emit (Ioread32 a) s)"

definition memcpy_toio :: "u64 \<Rightarrow> u8 list \<Rightarrow> kstate \<Rightarrow> kstate" where
  "memcpy_toio a bs s = emit (Memcpy_toio a bs) (s\<lparr>io := store_bytes (io s) a bs\<rparr>)"

definition memcpy_fromio :: "u64 \<Rightarrow> nat \<Rightarrow> kstate \<Rightarrow> u8 list \<times> kstate" where
  "memcpy_fromio a n s = (load_bytes (io s) a n, emit (Memcpy_fromio a n) s)"

text \<open>
  \<^verbatim>\<open>kzalloc\<close> takes its outcome from the environment: \<open>None\<close> is the null pointer. When
  nothing is said about the next allocation, it fails.
\<close>

definition kzalloc :: "kstate \<Rightarrow> nat option \<times> kstate" where
  "kzalloc s = (case allocs s of [] \<Rightarrow> (None, s) | r # rs \<Rightarrow> (r, s\<lparr>allocs := rs\<rparr>))"

definition kfree :: "nat \<Rightarrow> kstate \<Rightarrow> kstate" where
  "kfree a s = emit (Kfree a) s"

definition is_power_of_2 :: "u32 \<Rightarrow> bool" where
  "is_power_of_2 n \<longleftrightarrow> n \<noteq> 0 \<and> n AND (n - 1) = 0"

subsection \<open>The IDR (lib/idr.c)\<close>

definition idr_find :: "idr \<Rightarrow> nat \<Rightarrow> mailbox_msg option" where
  "idr_find r k = map_of (idr_rt r) k"

definition idr_remove :: "idr \<Rightarrow> nat \<Rightarrow> idr" where
  "idr_remove r k = r\<lparr>idr_rt := filter (\<lambda>e. fst e \<noteq> k) (idr_rt r)\<rparr>"

text \<open>
  The IDR holds a pointer to the object, so a store into the object after it was entered is
  seen through the IDR: \<open>idr_store\<close> writes the new contents into the entry.
\<close>

definition idr_store :: "idr \<Rightarrow> nat \<Rightarrow> mailbox_msg \<Rightarrow> idr" where
  "idr_store r k p = r\<lparr>idr_rt := map (\<lambda>e. if fst e = k then (k, p) else e) (idr_rt r)\<rparr>"

text \<open>The lowest free identifier in \<open>[lo, hi]\<close>, as \<^verbatim>\<open>idr_alloc_u32\<close> finds it.\<close>

definition idr_get_free :: "idr \<Rightarrow> nat \<Rightarrow> nat \<Rightarrow> nat option" where
  "idr_get_free r lo hi = find (\<lambda>k. map_of (idr_rt r) k = None) [lo..<Suc hi]"

definition idr_alloc_u32 :: "idr \<Rightarrow> mailbox_msg \<Rightarrow> nat \<Rightarrow> nat \<Rightarrow> (errno + nat) \<times> idr" where
  "idr_alloc_u32 r p nextid maxid =
     (case idr_get_free r nextid maxid of
        None \<Rightarrow> (Inl ENOSPC, r)
      | Some k \<Rightarrow> (Inr k, r\<lparr>idr_rt := insort_key fst (k, p) (idr_rt r)\<rparr>))"

definition idr_alloc_cyclic :: "idr \<Rightarrow> mailbox_msg \<Rightarrow> nat \<Rightarrow> nat \<Rightarrow> (errno + nat) \<times> idr" where
  "idr_alloc_cyclic r p start end' =
     (let id0 = idr_next r;
          maxid = (if end' > 0 then end' - 1 else INT_MAX);
          id1 = (if id0 > INT_MAX \<or> id0 < start then start else id0);
          (err, r1) = idr_alloc_u32 r p id1 maxid;
          (err, r2) = (if err = Inl ENOSPC \<and> id1 > start then idr_alloc_u32 r1 p start maxid
                       else (err, r1))
      in case err of
           Inl e \<Rightarrow> (Inl e, r2)
         | Inr k \<Rightarrow> (Inr k, r2\<lparr>idr_next := k + 1\<rparr>))"

definition idr_destroy :: "idr \<Rightarrow> idr" where
  "idr_destroy r = r\<lparr>idr_rt := []\<rparr>"

subsection \<open>Registers and pointers\<close>

definition mailbox_reg_write :: "kstate \<Rightarrow> u32 \<Rightarrow> u32 \<Rightarrow> kstate" where
  "mailbox_reg_write s mbox_reg data =
     (let ringbuf_addr = mbox_base (mres (mb s)) + ucast mbox_reg
      in iowrite32 data ringbuf_addr s)"

definition mailbox_reg_read :: "kstate \<Rightarrow> u32 \<Rightarrow> u32 \<times> kstate" where
  "mailbox_reg_read s mbox_reg =
     (let ringbuf_addr = mbox_base (mres (mb s)) + ucast mbox_reg
      in ioread32 ringbuf_addr s)"

definition mailbox_set_headptr :: "kstate \<Rightarrow> u32 \<Rightarrow> kstate" where
  "mailbox_set_headptr s headptr_val =
     (let s1 = mailbox_reg_write s (mb_head_ptr_reg (res s CHAN_RES_I2X)) headptr_val
      in s1\<lparr>i2x_head := headptr_val\<rparr>)"

definition mailbox_set_tailptr :: "kstate \<Rightarrow> u32 \<Rightarrow> kstate" where
  "mailbox_set_tailptr s tailptr_val =
     (let s1 = mailbox_reg_write s (mb_tail_ptr_reg (res s CHAN_RES_X2I)) tailptr_val
      in s1\<lparr>x2i_tail := tailptr_val\<rparr>)"

definition mailbox_get_headptr :: "kstate \<Rightarrow> channel_res_type \<Rightarrow> u32 \<times> kstate" where
  "mailbox_get_headptr s type = mailbox_reg_read s (mb_head_ptr_reg (res s type))"

definition mailbox_get_tailptr :: "kstate \<Rightarrow> channel_res_type \<Rightarrow> u32 \<times> kstate" where
  "mailbox_get_tailptr s type = mailbox_reg_read s (mb_tail_ptr_reg (res s type))"

definition mailbox_get_ringbuf_size :: "kstate \<Rightarrow> channel_res_type \<Rightarrow> u32" where
  "mailbox_get_ringbuf_size s type = rb_size (res s type)"

subsection \<open>Message identifiers\<close>

definition mailbox_validate_msgid :: "u32 \<Rightarrow> bool" where
  "mailbox_validate_msgid msg_id \<longleftrightarrow> msg_id AND MAGIC_VAL_MASK = MAGIC_VAL"

definition mailbox_acquire_msgid :: "kstate \<Rightarrow> mailbox_msg \<Rightarrow> (errno + u32) \<times> kstate" where
  "mailbox_acquire_msgid s mb_msg =
     (let (msg_id, r) = idr_alloc_cyclic (chan_idr s) mb_msg 0 MAX_MSG_ID_ENTRIES;
          s1 = s\<lparr>chan_idr := r\<rparr>
      in case msg_id of
           Inl e \<Rightarrow> (Inl e, s1)
         | Inr k \<Rightarrow> (Inr (of_nat k OR MAGIC_VAL), s1))"

definition mailbox_release_msgid :: "kstate \<Rightarrow> u32 \<Rightarrow> kstate" where
  "mailbox_release_msgid s msg_id =
     (let msg_id = msg_id AND NOT MAGIC_VAL_MASK
      in s\<lparr>chan_idr := idr_remove (chan_idr s) (unat msg_id)\<rparr>)"

subsection \<open>The wire format of a package\<close>

text \<open>
  The bit-fields \<open>size\<close> (11 bits), \<open>rsvd0\<close> (5), \<open>protocol_version\<close> (8) and \<open>rsvd1\<close> (8)
  share the second 32-bit word, the first field in the lowest bits.
\<close>

definition header_word1 :: "xdna_msg_header \<Rightarrow> u32" where
  "header_word1 h =
     ucast (size' h) OR push_bit 11 (ucast (rsvd0 h)) OR
     push_bit 16 (ucast (protocol_version h)) OR push_bit 24 (ucast (rsvd1 h))"

definition header_bytes :: "xdna_msg_header \<Rightarrow> u8 list" where
  "header_bytes h = le32 (total_size h) @ le32 (header_word1 h) @ le32 (id' h) @ le32 (opcode h)"

definition header_of_bytes :: "u8 list \<Rightarrow> xdna_msg_header" where
  "header_of_bytes bs =
     (let w1 = from_le32 (drop 4 bs)
      in \<lparr>total_size = from_le32 bs,
          size' = ucast w1,
          rsvd0 = ucast (drop_bit 11 w1),
          protocol_version = ucast (drop_bit 16 w1),
          rsvd1 = ucast (drop_bit 24 w1),
          id' = from_le32 (drop 8 bs),
          opcode = from_le32 (drop 12 bs)\<rparr>)"

definition pkg_bytes :: "mailbox_pkg \<Rightarrow> u8 list" where
  "pkg_bytes p = header_bytes (header p) @ payload p"

text \<open>The object \<^verbatim>\<open>kzalloc\<close> returns at address \<open>a\<close>: every field is zero.\<close>

definition zero_mailbox_msg :: "nat \<Rightarrow> mailbox_msg" where
  "zero_mailbox_msg a =
     \<lparr>msg_addr = a, handle = 0, notify_cb = None, pkg_size = 0,
      pkg = \<lparr>header = \<lparr>total_size = 0, size' = 0, rsvd0 = 0, protocol_version = 0, rsvd1 = 0,
                        id' = 0, opcode = 0\<rparr>,
             payload = []\<rparr>\<rparr>"

definition IS_ALIGNED :: "u64 \<Rightarrow> u64 \<Rightarrow> bool" where
  "IS_ALIGNED x a \<longleftrightarrow> x AND (a - 1) = 0"

subsection \<open>Releasing a pending message at teardown\<close>

definition mailbox_release_msg :: "nat \<Rightarrow> mailbox_msg \<Rightarrow> kstate \<Rightarrow> int \<times> kstate" where
  "mailbox_release_msg k mb_msg s =
     (let s1 = emit (MB_DBG ''msg_id 0x%x msg opcode 0x%x''
                      [id' (header (pkg mb_msg)), opcode (header (pkg mb_msg))]) s;
          s2 = (case notify_cb mb_msg of
                  None \<Rightarrow> s1
                | Some cb \<Rightarrow> emit (Notify_cb cb (handle mb_msg) None 0) s1);
          s3 = kfree (msg_addr mb_msg) s2
      in (0, s3))"

subsection \<open>Writing a package into the X2I ring\<close>

definition mailbox_send_msg :: "kstate \<Rightarrow> mailbox_msg \<Rightarrow> (errno + unit) \<times> kstate" where
  "mailbox_send_msg s mb_msg =
     (let (head, s1) = mailbox_get_headptr s CHAN_RES_X2I;
          tail = x2i_tail s1;
          ringbuf_size = mailbox_get_ringbuf_size s1 CHAN_RES_X2I;
          start_addr = rb_start_addr (res s1 CHAN_RES_X2I);
          tmp_tail = (ucast (ucast tail + pkg_size mb_msg) :: u32)
      in if tail < head \<and> tmp_tail \<ge> head then (Inl ENOSPC, s1)
         else if tail \<ge> head \<and> ((ucast tmp_tail :: u64) > ucast ringbuf_size - 4 \<and>
                                 pkg_size mb_msg \<ge> ucast head) then (Inl ENOSPC, s1)
         else
           let (tail, s2) =
                 (if tail \<ge> head \<and> (ucast tmp_tail :: u64) > ucast ringbuf_size - 4
                  then let write_addr = ringbuf_base (mres (mb s1)) + ucast start_addr + ucast tail
                       in (0, iowrite32 TOMBSTONE write_addr s1)
                  else (tail, s1));
               write_addr = ringbuf_base (mres (mb s2)) + ucast start_addr + ucast tail;
               s3 = memcpy_toio write_addr (take (unat (pkg_size mb_msg)) (pkg_bytes (pkg mb_msg))) s2;
               s4 = mailbox_set_tailptr s3 (ucast (ucast tail + pkg_size mb_msg));
               s5 = emit (Trace_mbox_set_tail (opcode (header (pkg mb_msg)))
                                              (id' (header (pkg mb_msg)))) s4
           in (Inr (), s5))"

subsection \<open>Reading a message from the I2X ring\<close>

definition mailbox_get_resp :: "kstate \<Rightarrow> xdna_msg_header \<Rightarrow> u64 \<Rightarrow> kstate" where
  "mailbox_get_resp s hdr data =
     (let msg_id = id' hdr
      in if \<not> mailbox_validate_msgid msg_id
         then emit (MB_DBG ''Bad message ID 0x%x'' [msg_id]) s
         else
           let msg_id = msg_id AND NOT MAGIC_VAL_MASK
           in case idr_find (chan_idr s) (unat msg_id) of
                None \<Rightarrow> emit (WARN_ONCE ''Cannot find msg 0x%x'' [msg_id]) s
              | Some mb_msg \<Rightarrow>
                  let s1 = s\<lparr>chan_idr := idr_remove (chan_idr s) (unat msg_id)\<rparr>;
                      s2 = (case notify_cb mb_msg of
                              None \<Rightarrow> s1
                            | Some cb \<Rightarrow>
                                emit (Notify_cb cb (handle mb_msg) (Some data) (unat (size' hdr))) s1)
                  in kfree (msg_addr mb_msg) s2)"

definition mailbox_get_async_msg :: "kstate \<Rightarrow> xdna_msg_header \<Rightarrow> u64 \<Rightarrow> kstate" where
  "mailbox_get_async_msg s hdr data =
     (let (async_msg, s1) = kzalloc s
      in case async_msg of
           None \<Rightarrow> s1
         | Some a \<Rightarrow>
             let (bytes, s2) = memcpy_fromio data (unat (size' hdr)) s1;
                 m = \<lparr>async_addr = a, msg = \<lparr>a_opcode = opcode hdr, a_payload = bytes\<rparr>\<rparr>;
                 s3 = s2\<lparr>async_msg_list := async_msg_list s2 @ [m]\<rparr>
             in s3\<lparr>async_comp := async_comp s3 + 1\<rparr>)"

definition mailbox_get_msg :: "kstate \<Rightarrow> (errno + unit) \<times> kstate" where
  "mailbox_get_msg s =
     (let (tail, s1) = mailbox_get_tailptr s CHAN_RES_I2X;
          head = i2x_head s1;
          ringbuf_size = mailbox_get_ringbuf_size s1 CHAN_RES_I2X;
          start_addr = rb_start_addr (res s1 CHAN_RES_I2X)
      in if head AND (ringbuf_size - 1) = tail AND (ringbuf_size - 1) then (Inl ENOENT, s1)
         else
           let head = (if head = ringbuf_size then 0 else head);
               read_addr = ringbuf_base (mres (mb s1)) + ucast start_addr + ucast head;
               (val, s2) = ioread32 read_addr s1
           in if val = TOMBSTONE then (Inr (), mailbox_set_headptr s2 0)
              else
                let msg_size = val;
                    (hb, s3) = memcpy_fromio read_addr 16 s2;
                    hdr = header_of_bytes hb
                in if (ucast msg_size + 16 :: u64) > ucast (tail - head)
                   then (Inl EINVAL,
                         emit (WARN_ONCE ''Invalid message size %d, tail %d, head %d''
                                 [msg_size, tail, head]) s3)
                   else
                     let read_addr = read_addr + 16;
                         s4 = (if id' hdr < ASYNC_MSG_START_ID
                               then mailbox_get_resp s3 hdr read_addr
                               else mailbox_get_async_msg s3 hdr read_addr);
                         s5 = mailbox_set_headptr s4 (ucast (ucast head + 16 + ucast msg_size :: u64));
                         s6 = emit (Trace_mbox_set_head (opcode hdr) (id' hdr)) s5
                     in (Inr (), s6))"

text \<open>
  The worker: \<^verbatim>\<open>while (1) { ret = mailbox_get_msg(mb_chann); if (ret) break; }\<close>. Nothing in
  the code bounds the number of rounds, so the loop is a partial function: \<open>None\<close> is the
  loop that never ends.
\<close>

partial_function (option) mailbox_rx_worker :: "kstate \<Rightarrow> kstate option" where
  "mailbox_rx_worker s =
     (case mailbox_get_msg s of
        (Inl e, s1) \<Rightarrow> Some s1
      | (Inr u, s1) \<Rightarrow> mailbox_rx_worker s1)"

subsection \<open>The send operation\<close>

text \<open>\<^verbatim>\<open>((u32 *)msg->send_data)[0]\<close>, on a little-endian host.\<close>

definition payload_first_word :: "xdna_mailbox_msg \<Rightarrow> u32" where
  "payload_first_word m = from_le32 (map (send_data m) [0..<4])"

text \<open>
  \<^verbatim>\<open>xdna_mailbox_send_msg\<close>. The first word of the payload is read through the pointer
  before anything else is known about the buffer, as the C code does. The timeout is not
  used.
\<close>

definition xdna_mailbox_send_msg ::
    "kstate \<Rightarrow> xdna_mailbox_msg \<Rightarrow> u64 \<Rightarrow> (errno + unit) \<times> kstate" where
  "xdna_mailbox_send_msg s m tx_timeout =
     (let pkg_size = 16 + send_size m
      in if pkg_size > ucast (mailbox_get_ringbuf_size s CHAN_RES_X2I)
         then (Inl EINVAL, emit (MB_ERR ''Message size larger than ringbuf size'') s)
         else if \<not> IS_ALIGNED (send_size m) 4
         then (Inl EINVAL, emit (MB_ERR ''Message must be 4 bytes align'') s)
         else if payload_first_word m = TOMBSTONE
         then (Inl EINVAL, emit (MB_ERR ''Tomb stone in data'') s)
         else
           let (p, s1) = kzalloc s
           in (case p of
                 None \<Rightarrow> (Inl ENOMEM, s1)
               | Some a \<Rightarrow>
                  (let mb_msg = zero_mailbox_msg a;
                       mb_msg = mb_msg\<lparr>handle := m_handle m\<rparr>;
                       mb_msg = mb_msg\<lparr>notify_cb := m_notify_cb m\<rparr>;
                       mb_msg = mb_msg\<lparr>pkg_size := pkg_size\<rparr>;
                       hdr = header (pkg mb_msg);
                       hdr = hdr\<lparr>total_size := ucast (send_size m)\<rparr>;
                       hdr = hdr\<lparr>size' := ucast (send_size m)\<rparr>;
                       hdr = hdr\<lparr>opcode := m_opcode m\<rparr>;
                       hdr = hdr\<lparr>protocol_version := MSG_PROTOCOL_VERSION\<rparr>;
                       mb_msg = mb_msg\<lparr>pkg := \<lparr>header = hdr,
                                   payload = map (send_data m) [0..<unat (send_size m)]\<rparr>\<rparr>;
                       (ret, s2) = mailbox_acquire_msgid s1 mb_msg
                   in (case ret of
                         Inl e \<Rightarrow>
                           (Inl e, kfree a (emit (MB_ERR ''mailbox_acquire_msgid failed'') s2))
                       | Inr msg_id \<Rightarrow>
                          (let hdr = hdr\<lparr>id' := msg_id\<rparr>;
                               mb_msg = mb_msg\<lparr>pkg := (pkg mb_msg)\<lparr>header := hdr\<rparr>\<rparr>;
                               s3 = s2\<lparr>chan_idr := idr_store (chan_idr s2)
                                                  (unat (msg_id AND NOT MAGIC_VAL_MASK)) mb_msg\<rparr>;
                               s4 = emit (MB_DBG ''opcode 0x%x size %d id 0x%x''
                                           [opcode hdr, total_size hdr, id' hdr]) s3;
                               (ret, s5) = mailbox_send_msg s4 mb_msg
                           in (case ret of
                                 Inr u \<Rightarrow> (Inr (), s5)
                               | Inl e \<Rightarrow>
                                  (let s6 = emit (MB_DBG ''Error in mailbox send msg, ret %d'' []) s5;
                                       s7 = mailbox_release_msgid s6 (id' hdr);
                                       s8 = kfree a s7
                                   in (Inl e, s8))))))))"

subsection \<open>Destroying a channel\<close>

fun idr_for_each ::
    "(nat \<times> mailbox_msg) list \<Rightarrow> (nat \<Rightarrow> mailbox_msg \<Rightarrow> kstate \<Rightarrow> int \<times> kstate) \<Rightarrow> kstate
      \<Rightarrow> int \<times> kstate" where
  "idr_for_each [] fn s = (0, s)"
| "idr_for_each ((k, p) # es) fn s =
     (case fn k p s of (ret, s1) \<Rightarrow> if ret \<noteq> 0 then (ret, s1) else idr_for_each es fn s1)"

text \<open>\<^verbatim>\<open>list_for_each_entry_safe\<close> over the queue of asynchronous messages.\<close>

fun free_async_msgs :: "mailbox_async_msg list \<Rightarrow> kstate \<Rightarrow> kstate" where
  "free_async_msgs [] s = s"
| "free_async_msgs (async_msg # next) s =
     free_async_msgs next (kfree (async_addr async_msg) (s\<lparr>async_msg_list := next\<rparr>))"

text \<open>
  \<^verbatim>\<open>xdna_mailbox_destroy_channel\<close>: the argument \<open>None\<close> is the null pointer. The channel
  object is freed at the end; the state returned is its contents at that point. Unlinking
  the channel from the list of the mailbox, under its mutex, leaves no trace here.
\<close>

fun xdna_mailbox_destroy_channel :: "kstate option \<Rightarrow> int \<times> kstate option" where
  "xdna_mailbox_destroy_channel None = (0, None)"
| "xdna_mailbox_destroy_channel (Some s) =
     (let s1 = emit (Free_irq (msix_irq s)) s;
          s2 = emit Destroy_workqueue s1;
          (ret, s3) = idr_for_each (idr_rt (chan_idr s2)) mailbox_release_msg s2;
          s4 = s3\<lparr>chan_idr := idr_destroy (chan_idr s3)\<rparr>;
          s5 = free_async_msgs (async_msg_list s4) s4;
          s6 = emit (MB_DBG ''Mailbox channel destroyed, irq: %d'' []) s5;
          s7 = emit Kfree_channel s6
      in (0, Some s7))"

subsection \<open>What the properties observe\<close>

text \<open>The value a pointer register holds, and the address of a ring offset.\<close>

definition reg_addr :: "kstate \<Rightarrow> u32 \<Rightarrow> u64" where
  "reg_addr s r = mbox_base (mres (mb s)) + ucast r"

definition reg_val :: "kstate \<Rightarrow> u32 \<Rightarrow> u32" where
  "reg_val s r = from_le32 (load_bytes (io s) (reg_addr s r) 4)"

definition ring_addr :: "kstate \<Rightarrow> channel_res_type \<Rightarrow> u32 \<Rightarrow> u64" where
  "ring_addr s ty off = ringbuf_base (mres (mb s)) + ucast (rb_start_addr (res s ty)) + ucast off"

fun is_io_write :: "event \<Rightarrow> bool" where
  "is_io_write (Iowrite32 v a) = True"
| "is_io_write (Memcpy_toio a bs) = True"
| "is_io_write _ = False"

fun is_notify :: "event \<Rightarrow> bool" where
  "is_notify (Notify_cb cb h d n) = True"
| "is_notify _ = False"

fun is_kfree :: "event \<Rightarrow> bool" where
  "is_kfree (Kfree a) = True"
| "is_kfree _ = False"

text \<open>
  What one round of the receive worker sees: the I2X tail register, the offset it reads at
  (the cached head, or 0 when the cached head stands at the end of the ring), the first
  word and the header there, and the three reads that fetch them.
\<close>

definition i2x_tail_reg :: "kstate \<Rightarrow> u32" where
  "i2x_tail_reg s = reg_val s (mb_tail_ptr_reg (res s CHAN_RES_I2X))"

definition i2x_read_head :: "kstate \<Rightarrow> u32" where
  "i2x_read_head s = (if i2x_head s = rb_size (res s CHAN_RES_I2X) then 0 else i2x_head s)"

definition i2x_first_word :: "kstate \<Rightarrow> u32" where
  "i2x_first_word s = from_le32 (load_bytes (io s) (ring_addr s CHAN_RES_I2X (i2x_read_head s)) 4)"

definition i2x_header :: "kstate \<Rightarrow> xdna_msg_header" where
  "i2x_header s = header_of_bytes (load_bytes (io s) (ring_addr s CHAN_RES_I2X (i2x_read_head s)) 16)"

definition i2x_reads :: "kstate \<Rightarrow> event list" where
  "i2x_reads s =
     [Ioread32 (reg_addr s (mb_tail_ptr_reg (res s CHAN_RES_I2X))),
      Ioread32 (ring_addr s CHAN_RES_I2X (i2x_read_head s)),
      Memcpy_fromio (ring_addr s CHAN_RES_I2X (i2x_read_head s)) 16]"

definition i2x_payload_addr :: "kstate \<Rightarrow> u64" where
  "i2x_payload_addr s = ring_addr s CHAN_RES_I2X (i2x_read_head s) + 16"

text \<open>The two actions that publish the new head at the end of a round.\<close>

definition i2x_publish :: "kstate \<Rightarrow> event list" where
  "i2x_publish s =
     [Iowrite32 (i2x_read_head s + 16 + i2x_first_word s)
                (reg_addr s (mb_head_ptr_reg (res s CHAN_RES_I2X))),
      Trace_mbox_set_head (opcode (i2x_header s)) (id' (i2x_header s))]"

text \<open>
  What \<^verbatim>\<open>mailbox_release_msg\<close> does for one pending record: the debug message, the call
  of the callback with a null pointer and size 0 when there is a callback, and the
  \<^verbatim>\<open>kfree\<close>.
\<close>

definition cancel_call :: "mailbox_msg \<Rightarrow> event list" where
  "cancel_call m = (case notify_cb m of None \<Rightarrow> [] | Some cb \<Rightarrow> [Notify_cb cb (handle m) None 0])"

definition release_events :: "mailbox_msg \<Rightarrow> event list" where
  "release_events m =
     [MB_DBG ''msg_id 0x%x msg opcode 0x%x'' [id' (header (pkg m)), opcode (header (pkg m))]] @
     cancel_call m @ [Kfree (msg_addr m)]"

text \<open>
  What the ring write of a send sees: the X2I head register, the sum the code keeps in
  \<^verbatim>\<open>tmp_tail\<close>, and its two tests (no space; tombstone and restart at offset 0).
  \<open>pending_record\<close> is the record \<^verbatim>\<open>xdna_mailbox_send_msg\<close> builds for a message, with a
  given identifier in the header; \<open>send_accepts\<close> is its validation of the arguments.
\<close>

definition x2i_head_reg :: "kstate \<Rightarrow> u32" where
  "x2i_head_reg s = reg_val s (mb_head_ptr_reg (res s CHAN_RES_X2I))"

definition x2i_tmp_tail :: "kstate \<Rightarrow> mailbox_msg \<Rightarrow> u32" where
  "x2i_tmp_tail s mb_msg = ucast (ucast (x2i_tail s) + pkg_size mb_msg :: u64)"

definition x2i_no_space :: "kstate \<Rightarrow> mailbox_msg \<Rightarrow> bool" where
  "x2i_no_space s mb_msg \<longleftrightarrow>
     x2i_tail s < x2i_head_reg s \<and> x2i_tmp_tail s mb_msg \<ge> x2i_head_reg s \<or>
     x2i_tail s \<ge> x2i_head_reg s \<and>
       (ucast (x2i_tmp_tail s mb_msg) :: u64) > ucast (rb_size (res s CHAN_RES_X2I)) - 4 \<and>
       pkg_size mb_msg \<ge> ucast (x2i_head_reg s)"

definition x2i_wrap :: "kstate \<Rightarrow> mailbox_msg \<Rightarrow> bool" where
  "x2i_wrap s mb_msg \<longleftrightarrow>
     x2i_tail s \<ge> x2i_head_reg s \<and>
       (ucast (x2i_tmp_tail s mb_msg) :: u64) > ucast (rb_size (res s CHAN_RES_X2I)) - 4"

definition pending_record :: "nat \<Rightarrow> xdna_mailbox_msg \<Rightarrow> u32 \<Rightarrow> mailbox_msg" where
  "pending_record a m msg_id =
     \<lparr>msg_addr = a, handle = m_handle m, notify_cb = m_notify_cb m, pkg_size = 16 + send_size m,
      pkg = \<lparr>header = \<lparr>total_size = ucast (send_size m), size' = ucast (send_size m), rsvd0 = 0,
                        protocol_version = MSG_PROTOCOL_VERSION, rsvd1 = 0, id' = msg_id,
                        opcode = m_opcode m\<rparr>,
             payload = map (send_data m) [0..<unat (send_size m)]\<rparr>\<rparr>"

definition send_accepts :: "kstate \<Rightarrow> xdna_mailbox_msg \<Rightarrow> bool" where
  "send_accepts s m \<longleftrightarrow>
     \<not> 16 + send_size m > ucast (rb_size (res s CHAN_RES_X2I)) \<and> IS_ALIGNED (send_size m) 4 \<and>
     payload_first_word m \<noteq> TOMBSTONE"

subsection \<open>A channel to run the code on\<close>

text \<open>
  Two rings of 64 bytes, no message pending, the I/O space all zero. The examples below
  change single fields of it.
\<close>

definition ex_res :: "channel_res_type \<Rightarrow> xdna_mailbox_chann_res" where
  "ex_res ty =
     (case ty of
        CHAN_RES_X2I \<Rightarrow>
          \<lparr>rb_start_addr = 0x1000, mb_head_ptr_reg = 0x10, mb_tail_ptr_reg = 0x14, rb_size = 64\<rparr>
      | CHAN_RES_I2X \<Rightarrow>
          \<lparr>rb_start_addr = 0x2000, mb_head_ptr_reg = 0x20, mb_tail_ptr_reg = 0x24, rb_size = 64\<rparr>)"

definition ex_chan :: kstate where
  "ex_chan =
     \<lparr>mb = \<lparr>mres = \<lparr>ringbuf_base = 0x100000, mbox_base = 0x200000\<rparr>\<rparr>,
      res = ex_res, msix_irq = 5, iohub_int_addr = 0x30,
      chan_idr = \<lparr>idr_rt = [], idr_next = 0\<rparr>,
      x2i_tail = 0, i2x_head = 0, async_msg_list = [], async_comp = 0,
      io = (\<lambda>a. 0), allocs = [Some 7], trace = []\<rparr>"

text \<open>
  The same channel after the device has put one message of 8 payload bytes at the start of
  the I2X ring (total size 8, size 8, protocol version 1, opcode \<open>0x10\<close>, the identifier
  given by its four bytes) and moved its tail register to 24. No allocation will succeed.
\<close>

definition ex_inbound :: "u8 list \<Rightarrow> kstate" where
  "ex_inbound id_bytes =
     ex_chan\<lparr>io := store_bytes
                      (store_bytes (\<lambda>a. 0) 0x102000
                         ([8, 0, 0, 0, 8, 0, 1, 0] @ id_bytes @
                          [0x10, 0, 0, 0, 0xA, 0, 0, 0, 0xB, 0, 0, 0]))
                      0x200024 [24, 0, 0, 0],
              allocs := []\<rparr>"

text \<open>
  The channel with three requests pending, the second without a callback, and one
  asynchronous message queued.
\<close>

definition ex_pending :: kstate where
  "ex_pending =
     ex_chan\<lparr>chan_idr :=
               \<lparr>idr_rt =
                  [(0, (zero_mailbox_msg 100)\<lparr>handle := 11, notify_cb := Some 1\<rparr>),
                   (1, (zero_mailbox_msg 200)\<lparr>handle := 22\<rparr>),
                   (5, (zero_mailbox_msg 300)\<lparr>handle := 33, notify_cb := Some 3\<rparr>)],
                idr_next = 6\<rparr>,
             async_msg_list := [\<lparr>async_addr = 400, msg = \<lparr>a_opcode = 9, a_payload = []\<rparr>\<rparr>]\<rparr>"

text \<open>
  Messages to send: 6 and 16 payload bytes, all zero, with a callback. And the channel with
  all 256 identifiers pending.
\<close>

definition ex_msg :: "u64 \<Rightarrow> xdna_mailbox_msg" where
  "ex_msg n = \<lparr>m_opcode = 0x100, m_handle = 11, m_notify_cb = Some 1, send_data = (\<lambda>i. 0),
              send_size = n\<rparr>"

definition ex_full :: kstate where
  "ex_full =
     ex_chan\<lparr>chan_idr := \<lparr>idr_rt = map (\<lambda>k. (k, zero_mailbox_msg k)) [0..<256], idr_next = 256\<rparr>\<rparr>"

text \<open>The channel with the cached X2I tail at \<open>T\<close> and the X2I head register at \<open>H\<close>.\<close>

definition ex_x2i :: "u32 \<Rightarrow> u8 \<Rightarrow> kstate" where
  "ex_x2i T H = ex_chan\<lparr>x2i_tail := T, io := (\<lambda>a. 0)(0x200010 := H)\<rparr>"

text \<open>The channel with rings of 4096 bytes.\<close>

definition ex_big :: kstate where
  "ex_big = ex_chan\<lparr>res := (\<lambda>ty. (ex_res ty)\<lparr>rb_size := 4096\<rparr>)\<rparr>"

text \<open>
  The channel with the cached I2X head at the end of the ring, where the last message left
  it, and the tail register at 0.
\<close>

definition ex_head_at_end :: kstate where
  "ex_head_at_end = ex_chan\<lparr>i2x_head := 64\<rparr>"

section \<open>Properties\<close>

subsection \<open>Words and bytes\<close>

lemma unat_ucast_up32: "unat (ucast (a :: u32) :: u64) = unat a"
proof -
  have "unat a < 2 ^ 32" using unsigned_less [of a, where 'a = nat] by simp
  then have "unat a < 2 ^ 64" by simp
  then show ?thesis by (simp add: unsigned_ucast_eq take_bit_nat_eq_self)
qed

lemma ucast_down_add: "(ucast (x + y :: u64) :: u32) = ucast x + ucast y"
proof -
  have "unat (ucast (x + y :: u64) :: u32) = ((unat x + unat y) mod 2 ^ 64) mod 2 ^ 32"
    by (simp add: unsigned_ucast_eq unat_word_ariths take_bit_eq_mod)
  also have "\<dots> = (unat x + unat y) mod 2 ^ 32"
    by (simp add: mod_mod_cancel)
  also have "\<dots> = unat ((ucast x :: u32) + ucast y)"
    by (simp add: unat_word_ariths unsigned_ucast_eq take_bit_eq_mod mod_simps)
  finally show ?thesis by (simp add: word_unat_eq_iff)
qed

lemma ucast_down_up: "(ucast (ucast (a :: u32) :: u64) :: u32) = a"
  by (simp add: ucast_up_ucast_id is_up)

lemma unat_pow2: "k < 32 \<Longrightarrow> unat ((2::u32) ^ k) = 2 ^ k"
proof -
  assume k: "k < 32"
  have "unat (push_bit k 1 :: u32) = take_bit 32 (push_bit k (1::nat))"
    by (simp add: unsigned_push_bit_eq del: push_bit_of_1)
  also have "\<dots> = 2 ^ k" using k by (simp add: take_bit_nat_eq_self)
  finally show ?thesis by simp
qed

lemma and_pow2_minus_1_eq_iff:
  fixes x y :: u32
  assumes "k < 32"
  shows "(x AND (2 ^ k - 1) = y AND (2 ^ k - 1)) \<longleftrightarrow>
         (unat x mod unat ((2::u32) ^ k) = unat y mod unat ((2::u32) ^ k))"
proof -
  have m: "((2::u32) ^ k - 1) = mask k" by (simp add: mask_eq_exp_minus_1)
  have "(x AND mask k = y AND mask k) \<longleftrightarrow> (unat (take_bit k x) = unat (take_bit k y))"
    by (simp add: take_bit_eq_mask word_unat_eq_iff)
  also have "\<dots> \<longleftrightarrow> (take_bit k (unat x) = take_bit k (unat y))"
    by (simp only: unsigned_take_bit_eq)
  also have "\<dots> \<longleftrightarrow> (unat x mod 2 ^ k = unat y mod 2 ^ k)"
    by (simp only: take_bit_eq_mod)
  finally show ?thesis by (simp add: m unat_pow2 [OF assms])
qed

text \<open>\<^verbatim>\<open>is_power_of_2\<close> holds of the powers of two, and of nothing else.\<close>

lemma is_power_of_2_pow: "k < 32 \<Longrightarrow> is_power_of_2 (2 ^ k)"
proof -
  assume k: "k < 32"
  have nz: "(2 ^ k :: u32) \<noteq> 0" using k by simp
  have "(2 ^ k :: u32) AND (2 ^ k - 1) = 0"
    by (rule bit_word_eqI) (auto simp: bit_simps simp flip: mask_eq_exp_minus_1)
  with nz show ?thesis by (simp add: is_power_of_2_def)
qed

lemma is_power_of_2_D:
  assumes "is_power_of_2 n"
  shows "\<exists>k<32. n = 2 ^ k"
proof -
  from assms have nz: "n \<noteq> 0" and z: "n AND (n - 1) = 0"
    by (simp_all add: is_power_of_2_def)
  from nz have "\<exists>i. bit n i" by (auto simp: bit_eq_iff)
  then obtain k where k: "bit n k" "\<And>j. j < k \<Longrightarrow> \<not> bit n j"
    using exists_least_iff [of "bit n"] by auto
  have k32: "k < 32" using k(1) by (auto dest: bit_imp_le_length)
  define c where "c = Suc k"
  define q where "q = drop_bit c n"
  have c: "k < c" "\<And>j. j < c \<Longrightarrow> j \<noteq> k \<Longrightarrow> j < k" by (simp_all add: c_def)
  have n: "n = push_bit c q OR 2 ^ k"
  proof (rule bit_word_eqI)
    fix j assume "j < LENGTH(32)"
    show "bit n j = bit (push_bit c q OR 2 ^ k) j"
    proof (cases "j < c")
      case True
      then show ?thesis using k c(2) [of j] k32 by (auto simp: bit_simps q_def)
    next
      case False
      then have "c + (j - c) = j" "j \<noteq> k" using c(1) by simp_all
      then show ?thesis using False by (auto simp: bit_simps q_def dest: bit_imp_le_length)
    qed
  qed
  have "n = push_bit c q + 2 ^ k"
    unfolding n
    by (rule disjunctive_add [symmetric]) (use c(1) in \<open>auto simp: bit_simps\<close>)
  then have "n - 1 = push_bit c q + (2 ^ k - 1)" by simp
  also have "\<dots> = push_bit c q + mask k" by (simp add: mask_eq_exp_minus_1)
  also have "\<dots> = push_bit c q OR mask k"
    by (rule disjunctive_add) (use c(1) in \<open>auto simp: bit_simps\<close>)
  finally have m: "n - 1 = push_bit c q OR mask k" .
  have "n AND (n - 1) = push_bit c q"
    apply (subst m) apply (subst n)
    apply (rule bit_word_eqI)
    using c(1) apply (auto simp: bit_simps)
    done
  with z have "push_bit c q = 0" by simp
  with n have "n = 2 ^ k" by simp
  with k32 show ?thesis by blast
qed

lemma from_le32_le32: "from_le32 (le32 v) = v"
  unfolding le32_def from_le32.simps
proof (rule bit_word_eqI)
  fix n
  assume "n < LENGTH(32)"
  then consider "n < 8" | "8 \<le> n" "n < 16" | "16 \<le> n" "n < 24" | "24 \<le> n" "n < 32"
    by fastforce
  then show "bit (ucast (ucast v :: u8) OR push_bit 8 (ucast (ucast (drop_bit 8 v) :: u8)) OR
                  push_bit 16 (ucast (ucast (drop_bit 16 v) :: u8)) OR
                  push_bit 24 (ucast (ucast (drop_bit 24 v) :: u8)) :: u32) n = bit v n"
    by cases (auto simp: bit_simps)
qed

lemma load_bytes_4: "load_bytes m a 4 = [m a, m (a + 1), m (a + 2), m (a + 3)]"
  by (simp add: load_bytes_def upt_conv_Cons)

lemma load_store_le32: "load_bytes (store_bytes m a (le32 v)) a 4 = le32 v"
  by (simp add: load_bytes_4 le32_def)

lemma reg_val_set_headptr:
  "reg_val (mailbox_set_headptr s v) (mb_head_ptr_reg (res s CHAN_RES_I2X)) = v"
  by (simp add: reg_val_def reg_addr_def mailbox_set_headptr_def mailbox_reg_write_def
        iowrite32_def emit_def load_store_le32 from_le32_le32 Let_def)

lemma reg_val_set_tailptr:
  "reg_val (mailbox_set_tailptr s v) (mb_tail_ptr_reg (res s CHAN_RES_X2I)) = v"
  by (simp add: reg_val_def reg_addr_def mailbox_set_tailptr_def mailbox_reg_write_def
        iowrite32_def emit_def load_store_le32 from_le32_le32 Let_def)

subsection \<open>The IDR\<close>

lemma find_Some_mem: "List.find P xs = Some x \<Longrightarrow> x \<in> set xs \<and> P x"
  by (induction xs) (auto split: if_splits)

lemma idr_get_free_Some:
  "idr_get_free r lo hi = Some k \<Longrightarrow> lo \<le> k \<and> k \<le> hi \<and> map_of (idr_rt r) k = None"
  unfolding idr_get_free_def by (drule find_Some_mem) (simp del: upt_Suc)

lemma idr_get_free_None:
  "idr_get_free r lo hi = None \<longleftrightarrow> (\<forall>k. lo \<le> k \<and> k \<le> hi \<longrightarrow> map_of (idr_rt r) k \<noteq> None)"
  unfolding idr_get_free_def find_None_iff by (auto simp del: upt_Suc)

lemma idr_get_free_first:
  "lo \<le> hi \<Longrightarrow> map_of (idr_rt r) lo = None \<Longrightarrow> idr_get_free r lo hi = Some lo"
  unfolding idr_get_free_def by (simp add: upt_conv_Cons del: upt_Suc)

lemma idr_alloc_cyclic_Inr:
  assumes "idr_alloc_cyclic r p start e = (Inr k, r')" and "0 < e"
  shows "start \<le> k \<and> k < e \<and> map_of (idr_rt r) k = None \<and>
         idr_rt r' = insort_key fst (k, p) (idr_rt r)"
  using assms
  by (auto simp: idr_alloc_cyclic_def idr_alloc_u32_def Let_def
           split: option.splits if_splits prod.splits sum.splits dest!: idr_get_free_Some)

lemma idr_alloc_cyclic_full:
  assumes "\<forall>k. start \<le> k \<and> k < e \<longrightarrow> map_of (idr_rt r) k \<noteq> None" and "0 < e"
  shows "idr_alloc_cyclic r p start e = (Inl ENOSPC, r)"
proof -
  have "idr_get_free r lo (e - 1) = None" if "start \<le> lo" for lo
    using assms that by (auto simp: idr_get_free_None)
  then show ?thesis using assms
    by (simp add: idr_alloc_cyclic_def idr_alloc_u32_def Let_def)
qed

lemma idr_alloc_cyclic_free:
  assumes "start \<le> k0" and "k0 < e" and "map_of (idr_rt r) k0 = None"
  shows "\<exists>k r'. idr_alloc_cyclic r p start e = (Inr k, r')"
proof -
  have "idr_get_free r start (e - 1) \<noteq> None"
    using assms by (auto simp: idr_get_free_None)
  then show ?thesis using assms
    by (auto simp: idr_alloc_cyclic_def idr_alloc_u32_def Let_def split: option.splits)
qed

subsection \<open>The magic prefix\<close>

lemma MAGIC_VAL_push: "MAGIC_VAL = push_bit 24 0x1D"
  by (simp add: MAGIC_VAL_def)

lemma MAGIC_VAL_MASK_push: "MAGIC_VAL_MASK = push_bit 24 (mask 8)"
  by (simp add: MAGIC_VAL_MASK_def mask_eq_exp_minus_1)

lemma NOT_MAGIC_VAL_MASK: "NOT MAGIC_VAL_MASK = mask 24"
  by (simp add: MAGIC_VAL_MASK_def mask_eq_exp_minus_1)

lemma NOT_MAGIC_VAL_MASK_num: "NOT MAGIC_VAL_MASK = 0x00FFFFFF"
  by (simp add: NOT_MAGIC_VAL_MASK mask_eq_exp_minus_1)

lemma of_nat_low_byte:
  assumes "k < 256"
  shows "(of_nat k :: u32) = take_bit 8 (of_nat k)"
  using assms by (simp add: take_bit_of_nat take_bit_nat_eq_self)

lemma magic_prefix:
  assumes "k < 256"
  shows "((of_nat k :: u32) OR MAGIC_VAL) AND MAGIC_VAL_MASK = MAGIC_VAL"
  apply (subst of_nat_low_byte [OF assms])
  apply (rule bit_word_eqI)
  apply (auto simp: bit_simps MAGIC_VAL_push MAGIC_VAL_MASK_push simp del: push_bit_numeral)
  done

lemma magic_index:
  assumes "k < 256"
  shows "unat (((of_nat k :: u32) OR MAGIC_VAL) AND NOT MAGIC_VAL_MASK) = k"
proof -
  have "((of_nat k :: u32) OR MAGIC_VAL) AND NOT MAGIC_VAL_MASK = take_bit 24 (of_nat k :: u32)"
    by (simp add: NOT_MAGIC_VAL_MASK MAGIC_VAL_push take_bit_push_bit
             flip: take_bit_eq_mask del: push_bit_numeral)
  then show ?thesis using assms
    by (simp add: unsigned_take_bit_eq unat_of_nat take_bit_nat_eq_self)
qed

lemma magic_value:
  assumes "k < 256"
  shows "unat ((of_nat k :: u32) OR MAGIC_VAL) = k + 0x1D000000"
proof -
  have "(of_nat k :: u32) + MAGIC_VAL = of_nat k OR MAGIC_VAL"
    apply (rule disjunctive_add)
    apply (subst of_nat_low_byte [OF assms])
    apply (auto simp: bit_simps MAGIC_VAL_push simp del: push_bit_numeral)
    done
  then have "unat ((of_nat k :: u32) OR MAGIC_VAL) = unat ((of_nat k :: u32) + MAGIC_VAL)"
    by simp
  also have "\<dots> = k + 0x1D000000"
    using assms by (simp add: unat_word_ariths unat_of_nat MAGIC_VAL_def)
  finally show ?thesis .
qed

lemma mailbox_acquire_msgid_Inr:
  assumes "mailbox_acquire_msgid s mb_msg = (Inr msg_id, s')"
  shows "\<exists>k r'. k < 256 \<and> msg_id = of_nat k OR MAGIC_VAL \<and>
           idr_alloc_cyclic (chan_idr s) mb_msg 0 MAX_MSG_ID_ENTRIES = (Inr k, r') \<and>
           s' = s\<lparr>chan_idr := r'\<rparr>"
proof -
  obtain r r' where a: "idr_alloc_cyclic (chan_idr s) mb_msg 0 MAX_MSG_ID_ENTRIES = (r, r')"
    by (cases "idr_alloc_cyclic (chan_idr s) mb_msg 0 MAX_MSG_ID_ENTRIES")
  with assms obtain k where k: "r = Inr k" "msg_id = of_nat k OR MAGIC_VAL" "s' = s\<lparr>chan_idr := r'\<rparr>"
    by (cases r) (auto simp: mailbox_acquire_msgid_def)
  from a k have "k < 256"
    using idr_alloc_cyclic_Inr [of "chan_idr s" mb_msg 0 MAX_MSG_ID_ENTRIES k r']
    by (simp add: MAX_MSG_ID_ENTRIES_def)
  with a k show ?thesis by blast
qed

text \<open>
  C4. Every identifier that \<^verbatim>\<open>mailbox_acquire_msgid\<close> hands out has the magic value
  \<open>0x1D\<close> in its upper eight bits and an index below 256 in the lower 24; so it is below
  \<open>0x80000000\<close>, where the identifiers of the asynchronous messages of the device begin.
\<close>

theorem acquired_msgid_has_magic:
  assumes "fst (mailbox_acquire_msgid s mb_msg) = Inr msg_id"
  shows "msg_id AND 0xFF000000 = 0x1D000000 \<and> msg_id AND 0x00FFFFFF < 256 \<and>
         \<not> msg_id \<ge> ASYNC_MSG_START_ID"
proof -
  from assms obtain s' where "mailbox_acquire_msgid s mb_msg = (Inr msg_id, s')"
    by (cases "mailbox_acquire_msgid s mb_msg") simp
  then obtain k where k: "k < 256" "msg_id = of_nat k OR MAGIC_VAL"
    using mailbox_acquire_msgid_Inr by blast
  have "msg_id AND MAGIC_VAL_MASK = MAGIC_VAL"
    using k by (simp add: magic_prefix)
  then have 1: "msg_id AND 0xFF000000 = 0x1D000000"
    by (simp add: MAGIC_VAL_MASK_def MAGIC_VAL_def)
  have "unat (msg_id AND NOT MAGIC_VAL_MASK) < 256"
    using k by (simp add: magic_index)
  moreover have "NOT MAGIC_VAL_MASK = 0x00FFFFFF"
    by (simp add: NOT_MAGIC_VAL_MASK mask_eq_exp_minus_1)
  ultimately have 2: "msg_id AND 0x00FFFFFF < 256"
    by (simp add: word_less_nat_alt)
  have 3: "msg_id < ASYNC_MSG_START_ID"
    using k by (simp add: word_less_nat_alt magic_value ASYNC_MSG_START_ID_def)
  from 1 2 3 show ?thesis by simp
qed

lemma acquire_on_ex_chan:
  "fst (mailbox_acquire_msgid ex_chan (zero_mailbox_msg 7)) = Inr 0x1D000000"
  by (simp add: mailbox_acquire_msgid_def ex_chan_def idr_alloc_cyclic_def idr_alloc_u32_def
        idr_get_free_first MAX_MSG_ID_ENTRIES_def MAGIC_VAL_def Let_def)

theorem acquired_msgid_has_magic_witness:
  "fst (mailbox_acquire_msgid ex_chan (zero_mailbox_msg 7)) = Inr 0x1D000000 \<and>
   (0x1D000000 :: u32) AND 0xFF000000 = 0x1D000000 \<and> (0x1D000000 :: u32) AND 0x00FFFFFF < 256 \<and>
   \<not> (0x1D000000 :: u32) \<ge> ASYNC_MSG_START_ID"
  using acquired_msgid_has_magic [OF acquire_on_ex_chan] acquire_on_ex_chan by simp

subsection \<open>The receive worker\<close>

lemma get_msg_empty:
  assumes "i2x_head s AND (rb_size (res s CHAN_RES_I2X) - 1) =
           i2x_tail_reg s AND (rb_size (res s CHAN_RES_I2X) - 1)"
  shows "mailbox_get_msg s =
           (Inl ENOENT, s\<lparr>trace := trace s @ [Ioread32 (reg_addr s (mb_tail_ptr_reg (res s CHAN_RES_I2X)))]\<rparr>)"
  using assms
  by (simp add: mailbox_get_msg_def mailbox_get_tailptr_def mailbox_reg_read_def ioread32_def
        mailbox_get_ringbuf_size_def i2x_tail_reg_def reg_val_def reg_addr_def emit_def Let_def)

lemma get_msg_not_empty:
  assumes "i2x_head s AND (rb_size (res s CHAN_RES_I2X) - 1) \<noteq>
           i2x_tail_reg s AND (rb_size (res s CHAN_RES_I2X) - 1)"
  shows "fst (mailbox_get_msg s) \<noteq> Inl ENOENT"
proof (cases "i2x_head s = rb_size (res s CHAN_RES_I2X)")
  case True
  with assms show ?thesis
    by (simp add: mailbox_get_msg_def mailbox_get_tailptr_def mailbox_reg_read_def ioread32_def
        memcpy_fromio_def mailbox_get_ringbuf_size_def i2x_tail_reg_def reg_val_def
        reg_addr_def emit_def Let_def)
next
  case False
  with assms show ?thesis
    by (simp add: mailbox_get_msg_def mailbox_get_tailptr_def mailbox_reg_read_def ioread32_def
        memcpy_fromio_def mailbox_get_ringbuf_size_def i2x_tail_reg_def reg_val_def
        reg_addr_def emit_def Let_def)
qed

lemma worker_stops:
  assumes "mailbox_get_msg s = (Inl e, s1)"
  shows "mailbox_rx_worker s = Some s1"
  by (subst mailbox_rx_worker.simps) (simp add: assms)

lemma worker_continues:
  assumes "mailbox_get_msg s = (Inr u, s1)"
  shows "mailbox_rx_worker s = mailbox_rx_worker s1"
  by (subst mailbox_rx_worker.simps) (simp add: assms)

text \<open>
  C8. On a channel whose I2X ring size \<open>N\<close> is a power of two (\<^verbatim>\<open>is_power_of_2\<close>, which
  \<^verbatim>\<open>xdna_mailbox_create_channel\<close> demands of both ring sizes), a round of the worker
  reports the ring empty, by returning \<open>ENOENT\<close>, exactly when its test
  \<^verbatim>\<open>(head & (N - 1)) == (tail & (N - 1))\<close> holds, and that is exactly when the cached head
  and the tail register are equal modulo \<open>N\<close>. When they are, \<^verbatim>\<open>mailbox_get_msg\<close> has done
  nothing but read the tail register (no ring byte is read, the cached head and the head
  register are as before), and the loop of the worker ends there.
\<close>

theorem empty_test_is_equality_mod_ring_size:
  assumes "is_power_of_2 (rb_size (res s CHAN_RES_I2X))"
  shows "(fst (mailbox_get_msg s) = Inl ENOENT \<longleftrightarrow>
            i2x_head s AND (rb_size (res s CHAN_RES_I2X) - 1) =
            i2x_tail_reg s AND (rb_size (res s CHAN_RES_I2X) - 1)) \<and>
         (fst (mailbox_get_msg s) = Inl ENOENT \<longleftrightarrow>
            unat (i2x_head s) mod unat (rb_size (res s CHAN_RES_I2X)) =
            unat (i2x_tail_reg s) mod unat (rb_size (res s CHAN_RES_I2X))) \<and>
         (unat (i2x_head s) mod unat (rb_size (res s CHAN_RES_I2X)) =
            unat (i2x_tail_reg s) mod unat (rb_size (res s CHAN_RES_I2X)) \<longrightarrow>
          mailbox_get_msg s =
            (Inl ENOENT,
             s\<lparr>trace := trace s @ [Ioread32 (reg_addr s (mb_tail_ptr_reg (res s CHAN_RES_I2X)))]\<rparr>) \<and>
          mailbox_rx_worker s =
            Some (s\<lparr>trace := trace s @ [Ioread32 (reg_addr s (mb_tail_ptr_reg (res s CHAN_RES_I2X)))]\<rparr>))"
proof -
  from is_power_of_2_D [OF assms] obtain k where
    k: "k < 32" "rb_size (res s CHAN_RES_I2X) = 2 ^ k" by blast
  have iff: "(i2x_head s AND (rb_size (res s CHAN_RES_I2X) - 1) =
           i2x_tail_reg s AND (rb_size (res s CHAN_RES_I2X) - 1)) \<longleftrightarrow>
          unat (i2x_head s) mod unat (rb_size (res s CHAN_RES_I2X)) =
           unat (i2x_tail_reg s) mod unat (rb_size (res s CHAN_RES_I2X))"
    unfolding k(2) by (rule and_pow2_minus_1_eq_iff [OF k(1)])
  have code: "fst (mailbox_get_msg s) = Inl ENOENT \<longleftrightarrow>
            i2x_head s AND (rb_size (res s CHAN_RES_I2X) - 1) =
            i2x_tail_reg s AND (rb_size (res s CHAN_RES_I2X) - 1)"
    using get_msg_empty [of s] get_msg_not_empty [of s] by auto
  show ?thesis
    using iff code get_msg_empty [of s] worker_stops [of s ENOENT] by blast
qed

lemma ex_head_at_end_fields:
  "rb_size (res ex_head_at_end CHAN_RES_I2X) = 64" "i2x_head ex_head_at_end = 64"
  "i2x_tail_reg ex_head_at_end = 0" "trace ex_head_at_end = []"
  "reg_addr ex_head_at_end (mb_tail_ptr_reg (res ex_head_at_end CHAN_RES_I2X)) = 0x200024"
  by (simp_all add: ex_head_at_end_def ex_chan_def ex_res_def i2x_tail_reg_def reg_val_def
        reg_addr_def load_bytes_4)

lemma ex_inbound_ring:
  "rb_size (res (ex_inbound bs) CHAN_RES_I2X) = 64" "i2x_head (ex_inbound bs) = 0"
  "i2x_tail_reg (ex_inbound [0xAB, 0, 0, 0x1D]) = 24"
  by (simp_all add: ex_inbound_def ex_chan_def ex_res_def i2x_tail_reg_def reg_val_def
        reg_addr_def load_bytes_def upt_conv_Cons)

theorem empty_test_is_equality_mod_ring_size_witness:
  "is_power_of_2 (rb_size (res ex_head_at_end CHAN_RES_I2X)) \<and>
   rb_size (res ex_head_at_end CHAN_RES_I2X) = 64 \<and>
   i2x_head ex_head_at_end = 64 \<and> i2x_tail_reg ex_head_at_end = 0 \<and>
   i2x_head ex_head_at_end AND (rb_size (res ex_head_at_end CHAN_RES_I2X) - 1) =
     i2x_tail_reg ex_head_at_end AND (rb_size (res ex_head_at_end CHAN_RES_I2X) - 1) \<and>
   mailbox_get_msg ex_head_at_end =
     (Inl ENOENT, ex_head_at_end\<lparr>trace := [Ioread32 0x200024]\<rparr>) \<and>
   mailbox_rx_worker ex_head_at_end = Some (ex_head_at_end\<lparr>trace := [Ioread32 0x200024]\<rparr>) \<and>
   is_power_of_2 (rb_size (res (ex_inbound [0xAB, 0, 0, 0x1D]) CHAN_RES_I2X)) \<and>
   unat (i2x_head (ex_inbound [0xAB, 0, 0, 0x1D])) mod 64 = 0 \<and>
   unat (i2x_tail_reg (ex_inbound [0xAB, 0, 0, 0x1D])) mod 64 = 24 \<and>
   fst (mailbox_get_msg (ex_inbound [0xAB, 0, 0, 0x1D])) \<noteq> Inl ENOENT"
proof -
  let ?e = "ex_head_at_end" and ?i = "ex_inbound [0xAB, 0, 0, 0x1D]"
  have 1: "is_power_of_2 (rb_size (res ?e CHAN_RES_I2X))"
    by (simp add: ex_head_at_end_fields is_power_of_2_def)
  have 2: "unat (i2x_head ?e) mod unat (rb_size (res ?e CHAN_RES_I2X)) =
     unat (i2x_tail_reg ?e) mod unat (rb_size (res ?e CHAN_RES_I2X))"
    by (simp add: ex_head_at_end_fields)
  have 3: "is_power_of_2 (rb_size (res ?i CHAN_RES_I2X))"
    by (simp add: ex_inbound_ring is_power_of_2_def)
  have 4: "unat (i2x_head ?i) mod unat (rb_size (res ?i CHAN_RES_I2X)) \<noteq>
     unat (i2x_tail_reg ?i) mod unat (rb_size (res ?i CHAN_RES_I2X))"
    by (simp add: ex_inbound_ring)
  from empty_test_is_equality_mod_ring_size [OF 1] 2 have a:
    "mailbox_get_msg ?e = (Inl ENOENT, ?e\<lparr>trace := [Ioread32 0x200024]\<rparr>)"
    "mailbox_rx_worker ?e = Some (?e\<lparr>trace := [Ioread32 0x200024]\<rparr>)"
    by (simp_all add: ex_head_at_end_fields)
  from empty_test_is_equality_mod_ring_size [OF 3] 4 have b: "fst (mailbox_get_msg ?i) \<noteq> Inl ENOENT"
    by blast
  show ?thesis
    using 1 3 a b by (simp add: ex_head_at_end_fields ex_inbound_ring)
qed

lemma get_msg_valid:
  assumes "i2x_head s AND (rb_size (res s CHAN_RES_I2X) - 1) \<noteq>
           i2x_tail_reg s AND (rb_size (res s CHAN_RES_I2X) - 1)"
      and "i2x_first_word s \<noteq> TOMBSTONE"
      and "\<not> (ucast (i2x_first_word s) + 16 :: u64) > ucast (i2x_tail_reg s - i2x_read_head s)"
  shows "mailbox_get_msg s =
     (let s3 = s\<lparr>trace := trace s @ i2x_reads s\<rparr>;
          s4 = (if id' (i2x_header s) < ASYNC_MSG_START_ID
                then mailbox_get_resp s3 (i2x_header s) (i2x_payload_addr s)
                else mailbox_get_async_msg s3 (i2x_header s) (i2x_payload_addr s));
          s5 = mailbox_set_headptr s4 (i2x_read_head s + 16 + i2x_first_word s)
      in (Inr (), emit (Trace_mbox_set_head (opcode (i2x_header s)) (id' (i2x_header s))) s5))"
proof (cases "i2x_head s = rb_size (res s CHAN_RES_I2X)")
  case True
  with assms show ?thesis
    by (simp add: mailbox_get_msg_def mailbox_get_tailptr_def mailbox_reg_read_def ioread32_def
        memcpy_fromio_def mailbox_get_ringbuf_size_def i2x_tail_reg_def i2x_read_head_def
        i2x_first_word_def i2x_header_def i2x_reads_def i2x_payload_addr_def reg_val_def
        reg_addr_def ring_addr_def emit_def Let_def ucast_down_add ucast_down_up)
next
  case False
  with assms show ?thesis
    by (simp add: mailbox_get_msg_def mailbox_get_tailptr_def mailbox_reg_read_def ioread32_def
        memcpy_fromio_def mailbox_get_ringbuf_size_def i2x_tail_reg_def i2x_read_head_def
        i2x_first_word_def i2x_header_def i2x_reads_def i2x_payload_addr_def reg_val_def
        reg_addr_def ring_addr_def emit_def Let_def ucast_down_add ucast_down_up)
qed

text \<open>What the dispatch leaves untouched.\<close>

lemma get_resp_frame:
  "mb (mailbox_get_resp s h d) = mb s \<and> res (mailbox_get_resp s h d) = res s \<and>
   io (mailbox_get_resp s h d) = io s \<and> i2x_head (mailbox_get_resp s h d) = i2x_head s"
  by (simp add: mailbox_get_resp_def emit_def kfree_def Let_def split: option.splits)

lemma get_async_frame:
  "mb (mailbox_get_async_msg s h d) = mb s \<and> res (mailbox_get_async_msg s h d) = res s \<and>
   io (mailbox_get_async_msg s h d) = io s \<and> i2x_head (mailbox_get_async_msg s h d) = i2x_head s"
  by (simp add: mailbox_get_async_msg_def kzalloc_def memcpy_fromio_def emit_def Let_def
           split: option.splits list.splits)

lemma set_headptr_fields:
  "i2x_head (mailbox_set_headptr s v) = v"
  "trace (mailbox_set_headptr s v) =
     trace s @ [Iowrite32 v (mbox_base (mres (mb s)) + ucast (mb_head_ptr_reg (res s CHAN_RES_I2X)))]"
  "chan_idr (mailbox_set_headptr s v) = chan_idr s"
  "async_msg_list (mailbox_set_headptr s v) = async_msg_list s"
  "async_comp (mailbox_set_headptr s v) = async_comp s"
  "res (mailbox_set_headptr s v) = res s"
  "mb (mailbox_set_headptr s v) = mb s"
  by (simp_all add: mailbox_set_headptr_def mailbox_reg_write_def iowrite32_def emit_def Let_def)

lemma get_msg_valid_head:
  assumes "i2x_head s AND (rb_size (res s CHAN_RES_I2X) - 1) \<noteq>
           i2x_tail_reg s AND (rb_size (res s CHAN_RES_I2X) - 1)"
      and "i2x_first_word s \<noteq> TOMBSTONE"
      and "\<not> (ucast (i2x_first_word s) + 16 :: u64) > ucast (i2x_tail_reg s - i2x_read_head s)"
  shows "fst (mailbox_get_msg s) = Inr ()"
    and "i2x_head (snd (mailbox_get_msg s)) = i2x_read_head s + 16 + i2x_first_word s"
    and "reg_val (snd (mailbox_get_msg s)) (mb_head_ptr_reg (res (snd (mailbox_get_msg s)) CHAN_RES_I2X)) =
          i2x_read_head s + 16 + i2x_first_word s"
proof -
  note g = get_msg_valid [OF assms]
  show "fst (mailbox_get_msg s) = Inr ()" by (simp add: g Let_def)
  show "i2x_head (snd (mailbox_get_msg s)) = i2x_read_head s + 16 + i2x_first_word s"
    by (simp add: g Let_def emit_def set_headptr_fields)
  have r: "res (snd (mailbox_get_msg s)) = res s"
    by (simp add: g Let_def emit_def set_headptr_fields get_resp_frame get_async_frame)
  let ?s4 = "if id' (i2x_header s) < ASYNC_MSG_START_ID
                then mailbox_get_resp (s\<lparr>trace := trace s @ i2x_reads s\<rparr>) (i2x_header s) (i2x_payload_addr s)
                else mailbox_get_async_msg (s\<lparr>trace := trace s @ i2x_reads s\<rparr>) (i2x_header s) (i2x_payload_addr s)"
  have r4: "res ?s4 = res s" by (simp add: get_resp_frame get_async_frame)
  have "reg_val (mailbox_set_headptr ?s4 (i2x_read_head s + 16 + i2x_first_word s))
          (mb_head_ptr_reg (res ?s4 CHAN_RES_I2X)) = i2x_read_head s + 16 + i2x_first_word s"
    by (rule reg_val_set_headptr)
  then show "reg_val (snd (mailbox_get_msg s)) (mb_head_ptr_reg (res (snd (mailbox_get_msg s)) CHAN_RES_I2X)) =
          i2x_read_head s + 16 + i2x_first_word s"
    unfolding r r4 by (simp add: g Let_def emit_def reg_val_def reg_addr_def)
qed





lemma get_msg_valid_async_nomem:
  assumes "i2x_head s AND (rb_size (res s CHAN_RES_I2X) - 1) \<noteq>
           i2x_tail_reg s AND (rb_size (res s CHAN_RES_I2X) - 1)"
      and "i2x_first_word s \<noteq> TOMBSTONE"
      and "\<not> (ucast (i2x_first_word s) + 16 :: u64) > ucast (i2x_tail_reg s - i2x_read_head s)"
      and "\<not> id' (i2x_header s) < ASYNC_MSG_START_ID"
      and "fst (kzalloc s) = None"
  shows "trace (snd (mailbox_get_msg s)) = trace s @ i2x_reads s @ i2x_publish s"
    and "async_msg_list (snd (mailbox_get_msg s)) = async_msg_list s"
    and "async_comp (snd (mailbox_get_msg s)) = async_comp s"
  using assms(4-5)
  by (simp_all add: get_msg_valid [OF assms(1-3)] Let_def emit_def set_headptr_fields
        mailbox_get_async_msg_def kzalloc_def memcpy_fromio_def i2x_publish_def reg_addr_def
        split: list.splits)




text \<open>
  C10. When the message is asynchronous (identifier at least \<open>0x80000000\<close>) and the
  allocation of its record fails, the round still returns 0: nothing is appended to the
  queue, the completion is not signalled, nothing is logged, and the cached head and the
  head register advance past the message as for any other message. The worker goes on with
  the next round.
\<close>

theorem async_alloc_failure_drops_message:
  assumes "i2x_head s AND (rb_size (res s CHAN_RES_I2X) - 1) \<noteq>
           i2x_tail_reg s AND (rb_size (res s CHAN_RES_I2X) - 1)"
      and "i2x_first_word s \<noteq> TOMBSTONE"
      and "\<not> (ucast (i2x_first_word s) + 16 :: u64) > ucast (i2x_tail_reg s - i2x_read_head s)"
      and "id' (i2x_header s) \<ge> ASYNC_MSG_START_ID"
      and "fst (kzalloc s) = None"
  shows "let s' = snd (mailbox_get_msg s)
         in fst (mailbox_get_msg s) = Inr () \<and>
            async_msg_list s' = async_msg_list s \<and>
            async_comp s' = async_comp s \<and>
            trace s' = trace s @ i2x_reads s @ i2x_publish s \<and>
            i2x_head s' = i2x_read_head s + 16 + i2x_first_word s \<and>
            reg_val s' (mb_head_ptr_reg (res s' CHAN_RES_I2X)) =
              i2x_read_head s + 16 + i2x_first_word s \<and>
            mailbox_rx_worker s = mailbox_rx_worker s'"
proof -
  have a: "\<not> id' (i2x_header s) < ASYNC_MSG_START_ID"
    using assms(4) by simp
  have "mailbox_get_msg s = (Inr (), snd (mailbox_get_msg s))"
    using get_msg_valid_head(1) [OF assms(1-3)] by (cases "mailbox_get_msg s") simp
  then have "mailbox_rx_worker s = mailbox_rx_worker (snd (mailbox_get_msg s))"
    by (rule worker_continues)
  then show ?thesis
    unfolding Let_def
    using get_msg_valid_head [OF assms(1-3)] get_msg_valid_async_nomem [OF assms(1-3) a assms(5)]
    by simp
qed

lemma ex_inbound_async_reads:
  "i2x_tail_reg (ex_inbound [1, 0, 0, 0x80]) = 24"
  "i2x_read_head (ex_inbound [1, 0, 0, 0x80]) = 0"
  "i2x_first_word (ex_inbound [1, 0, 0, 0x80]) = 8"
  "i2x_header (ex_inbound [1, 0, 0, 0x80]) =
     \<lparr>total_size = 8, size' = 8, rsvd0 = 0, protocol_version = 1, rsvd1 = 0,
      id' = 0x80000001, opcode = 0x10\<rparr>"
  by (simp_all add: i2x_tail_reg_def i2x_read_head_def i2x_first_word_def i2x_header_def
        header_of_bytes_def reg_val_def reg_addr_def ring_addr_def ex_inbound_def ex_chan_def
        ex_res_def load_bytes_def upt_conv_Cons Let_def)

theorem async_alloc_failure_drops_message_witness:
  "i2x_head (ex_inbound [1, 0, 0, 0x80]) AND
     (rb_size (res (ex_inbound [1, 0, 0, 0x80]) CHAN_RES_I2X) - 1) \<noteq>
   i2x_tail_reg (ex_inbound [1, 0, 0, 0x80]) AND
     (rb_size (res (ex_inbound [1, 0, 0, 0x80]) CHAN_RES_I2X) - 1) \<and>
   i2x_first_word (ex_inbound [1, 0, 0, 0x80]) \<noteq> TOMBSTONE \<and>
   id' (i2x_header (ex_inbound [1, 0, 0, 0x80])) \<ge> ASYNC_MSG_START_ID \<and>
   fst (kzalloc (ex_inbound [1, 0, 0, 0x80])) = None \<and>
   fst (mailbox_get_msg (ex_inbound [1, 0, 0, 0x80])) = Inr () \<and>
   async_msg_list (snd (mailbox_get_msg (ex_inbound [1, 0, 0, 0x80]))) = [] \<and>
   async_comp (snd (mailbox_get_msg (ex_inbound [1, 0, 0, 0x80]))) = 0 \<and>
   i2x_head (snd (mailbox_get_msg (ex_inbound [1, 0, 0, 0x80]))) = 24 \<and>
   trace (snd (mailbox_get_msg (ex_inbound [1, 0, 0, 0x80]))) =
     [Ioread32 0x200024, Ioread32 0x102000, Memcpy_fromio 0x102000 16,
      Iowrite32 24 0x200020, Trace_mbox_set_head 0x10 0x80000001] \<and>
   mailbox_rx_worker (ex_inbound [1, 0, 0, 0x80]) =
     mailbox_rx_worker (snd (mailbox_get_msg (ex_inbound [1, 0, 0, 0x80])))"
proof -
  let ?s = "ex_inbound [1, 0, 0, 0x80]"
  have f: "i2x_head ?s = 0" "rb_size (res ?s CHAN_RES_I2X) = 64" "trace ?s = []"
    "async_msg_list ?s = []" "async_comp ?s = 0" "mb_head_ptr_reg (res ?s CHAN_RES_I2X) = 0x20"
    "mbox_base (mres (mb ?s)) = 0x200000" "ringbuf_base (mres (mb ?s)) = 0x100000"
    "rb_start_addr (res ?s CHAN_RES_I2X) = 0x2000" "mb_tail_ptr_reg (res ?s CHAN_RES_I2X) = 0x24"
    by (simp_all add: ex_inbound_def ex_chan_def ex_res_def)
  have 1: "i2x_head ?s AND (rb_size (res ?s CHAN_RES_I2X) - 1) \<noteq>
           i2x_tail_reg ?s AND (rb_size (res ?s CHAN_RES_I2X) - 1)"
    by (simp add: f ex_inbound_async_reads)
  have 2: "i2x_first_word ?s \<noteq> TOMBSTONE"
    by (simp add: ex_inbound_async_reads TOMBSTONE_def)
  have 3: "\<not> (ucast (i2x_first_word ?s) + 16 :: u64) > ucast (i2x_tail_reg ?s - i2x_read_head ?s)"
    by (simp add: ex_inbound_async_reads)
  have 4: "id' (i2x_header ?s) \<ge> ASYNC_MSG_START_ID"
    by (simp add: ex_inbound_async_reads ASYNC_MSG_START_ID_def)
  have 5: "fst (kzalloc ?s) = None"
    by (simp add: kzalloc_def ex_inbound_def)
  from async_alloc_failure_drops_message [OF 1 2 3 4 5, unfolded Let_def] 1 2 4 5 show ?thesis
    by (simp add: f ex_inbound_async_reads i2x_reads_def i2x_publish_def reg_addr_def ring_addr_def)
qed

subsection \<open>Destroying a channel\<close>

lemma release_msg_eq:
  "mailbox_release_msg k m s = (0, s\<lparr>trace := trace s @ release_events m\<rparr>)"
  by (simp add: mailbox_release_msg_def release_events_def cancel_call_def emit_def kfree_def Let_def
           split: option.splits)

lemma idr_for_each_release:
  "idr_for_each es mailbox_release_msg s =
     (0, s\<lparr>trace := trace s @ concat (map (\<lambda>e. release_events (snd e)) es)\<rparr>)"
proof (induction es arbitrary: s)
  case Nil
  show ?case by simp
next
  case (Cons e es)
  obtain k m where e: "e = (k, m)" by (cases e)
  show ?case
    unfolding e
    apply (simp only: idr_for_each.simps)
    apply (simp only: Cons.IH)
    apply (simp add: release_msg_eq)
    done
qed

lemma filter_release_events:
  "filter is_notify (release_events m) = cancel_call m"
  "filter is_kfree (release_events m) = [Kfree (msg_addr m)]"
  by (simp_all add: release_events_def cancel_call_def split: option.splits)

lemma filter_async_frees:
  "filter is_kfree (map (\<lambda>x. Kfree (async_addr x)) xs) = map (\<lambda>x. Kfree (async_addr x)) xs"
  "filter is_notify (map (\<lambda>x. Kfree (async_addr x)) xs) = []"
  by (induction xs) auto

lemma free_async_msgs_fields:
  "trace (free_async_msgs xs s) = trace s @ map (\<lambda>x. Kfree (async_addr x)) xs"
  "chan_idr (free_async_msgs xs s) = chan_idr s"
  "async_msg_list (free_async_msgs xs s) = (if xs = [] then async_msg_list s else [])"
  by (induction xs arbitrary: s) (simp_all add: kfree_def emit_def)

lemma get_resp_no_pending:
  assumes "idr_rt (chan_idr s) = []"
  shows "filter is_notify (trace (mailbox_get_resp s h d)) = filter is_notify (trace s)"
  using assms
  by (simp add: mailbox_get_resp_def idr_find_def emit_def Let_def)

text \<open>
  C3. \<^verbatim>\<open>xdna_mailbox_destroy_channel\<close> on a channel returns 0 after it has gone through the
  pending records in the order of the IDR: for each one it calls the callback, when there
  is one, once with a null data pointer and size 0, and frees the record once. No other
  callback is called, the only other \<^verbatim>\<open>kfree\<close> calls are those of the queued asynchronous
  messages, and the IDR is empty at the end, so that no inbound response can find a record
  and call a callback any more.
\<close>

theorem destroy_cancels_every_pending:
  "\<exists>s'. xdna_mailbox_destroy_channel (Some s) = (0, Some s') \<and>
     trace s' =
       trace s @ [Free_irq (msix_irq s), Destroy_workqueue] @
       concat (map (\<lambda>e. release_events (snd e)) (idr_rt (chan_idr s))) @
       map (\<lambda>x. Kfree (async_addr x)) (async_msg_list s) @
       [MB_DBG ''Mailbox channel destroyed, irq: %d'' [], Kfree_channel] \<and>
     filter is_notify (trace s') =
       filter is_notify (trace s) @
       concat (map (\<lambda>e. cancel_call (snd e)) (idr_rt (chan_idr s))) \<and>
     filter is_kfree (trace s') =
       filter is_kfree (trace s) @ map (\<lambda>e. Kfree (msg_addr (snd e))) (idr_rt (chan_idr s)) @
       map (\<lambda>x. Kfree (async_addr x)) (async_msg_list s) \<and>
     idr_rt (chan_idr s') = [] \<and>
     (\<forall>h d. filter is_notify (trace (mailbox_get_resp s' h d)) = filter is_notify (trace s'))"
proof -
  have n: "filter is_notify (concat (map (\<lambda>e. release_events (snd e)) es)) =
           concat (map (\<lambda>e. cancel_call (snd e)) es)" for es
    by (induction es) (simp_all add: filter_release_events)
  have f: "filter is_kfree (concat (map (\<lambda>e. release_events (snd e)) es)) =
           map (\<lambda>e. Kfree (msg_addr (snd e))) es" for es
    by (induction es) (simp_all add: filter_release_events)
  obtain s' where s': "xdna_mailbox_destroy_channel (Some s) = (0, Some s')"
    by (simp add: Let_def idr_for_each_release)
  then have t: "trace s' =
       trace s @ [Free_irq (msix_irq s), Destroy_workqueue] @
       concat (map (\<lambda>e. release_events (snd e)) (idr_rt (chan_idr s))) @
       map (\<lambda>x. Kfree (async_addr x)) (async_msg_list s) @
       [MB_DBG ''Mailbox channel destroyed, irq: %d'' [], Kfree_channel]"
    and i: "idr_rt (chan_idr s') = []"
    by (auto simp: Let_def emit_def idr_for_each_release free_async_msgs_fields idr_destroy_def)
  have "filter is_notify (trace s') =
       filter is_notify (trace s) @ concat (map (\<lambda>e. cancel_call (snd e)) (idr_rt (chan_idr s)))"
    unfolding t by (simp add: n filter_async_frees)
  moreover have "filter is_kfree (trace s') =
       filter is_kfree (trace s) @ map (\<lambda>e. Kfree (msg_addr (snd e))) (idr_rt (chan_idr s)) @
       map (\<lambda>x. Kfree (async_addr x)) (async_msg_list s)"
    unfolding t by (simp add: f filter_async_frees)
  ultimately show ?thesis
    using s' t i get_resp_no_pending [OF i] by blast
qed

theorem destroy_cancels_every_pending_witness:
  "\<exists>s'. xdna_mailbox_destroy_channel (Some ex_pending) = (0, Some s') \<and>
     filter is_notify (trace s') = [Notify_cb 1 11 None 0, Notify_cb 3 33 None 0] \<and>
     filter is_kfree (trace s') = [Kfree 100, Kfree 200, Kfree 300, Kfree 400] \<and>
     idr_rt (chan_idr s') = []"
proof -
  from destroy_cancels_every_pending [of ex_pending] obtain s' where
    "xdna_mailbox_destroy_channel (Some ex_pending) = (0, Some s')"
    "filter is_notify (trace s') =
       filter is_notify (trace ex_pending) @
       concat (map (\<lambda>e. cancel_call (snd e)) (idr_rt (chan_idr ex_pending)))"
    "filter is_kfree (trace s') =
       filter is_kfree (trace ex_pending) @
       map (\<lambda>e. Kfree (msg_addr (snd e))) (idr_rt (chan_idr ex_pending)) @
       map (\<lambda>x. Kfree (async_addr x)) (async_msg_list ex_pending)"
    "idr_rt (chan_idr s') = []"
    by blast
  then show ?thesis
    by (simp add: ex_pending_def ex_chan_def cancel_call_def zero_mailbox_msg_def)
qed

subsection \<open>The send operation\<close>

lemma IS_ALIGNED_4: "IS_ALIGNED x 4 \<longleftrightarrow> 4 dvd unat x"
proof -
  have "x AND 3 = take_bit 2 x"
    by (simp add: take_bit_eq_mask mask_eq_exp_minus_1)
  moreover have "(take_bit 2 x = 0) \<longleftrightarrow> (unat (take_bit 2 x) = 0)"
    by (simp only: unsigned_eq_0_iff)
  moreover have "unat (take_bit 2 x) = unat x mod 4"
    by (simp only: unsigned_take_bit_eq) (simp add: take_bit_eq_mod)
  ultimately show ?thesis
    by (simp add: IS_ALIGNED_def dvd_eq_mod_eq_0)
qed

lemma framed_size_unat:
  fixes N :: u32 and x :: u64
  assumes "16 + unat x \<le> unat N"
  shows "unat (16 + x) = 16 + unat x"
    and "unat (ucast (16 + x) :: u32) = 16 + unat x"
proof -
  have n: "unat N < 2 ^ 32" using unsigned_less [of N, where 'a = nat] by simp
  with assms have b: "16 + unat x < 2 ^ 32" by linarith
  then have "16 + unat x < 2 ^ 64" by simp
  then show 1: "unat (16 + x) = 16 + unat x"
    by (simp add: unat_word_ariths)
  have "unat (ucast (16 + x) :: u32) = take_bit 32 (unat (16 + x))"
    by (simp only: unsigned_ucast_eq) simp
  also have "\<dots> = 16 + unat x"
    using b by (simp only: 1 take_bit_nat_eq_self)
  finally show "unat (ucast (16 + x) :: u32) = 16 + unat x" .
qed

lemma ring_end_compare:
  fixes N t :: u32
  assumes "4 \<le> unat N"
  shows "((ucast t :: u64) > ucast N - 4) \<longleftrightarrow> (t > N - 4)"
proof -
  have "(4 :: u64) \<le> ucast N"
    using assms by (simp add: word_le_nat_alt unat_ucast_up32)
  then have a: "unat (ucast N - 4 :: u64) = unat N - 4"
    by (simp add: unat_sub unat_ucast_up32)
  have "(4 :: u32) \<le> N"
    using assms by (simp add: word_le_nat_alt)
  then have b: "unat (N - 4) = unat N - 4"
    by (simp add: unat_sub)
  show ?thesis
    by (simp add: word_less_nat_alt a b unat_ucast_up32)
qed

lemma send_msg_no_space:
  assumes "x2i_no_space s mb_msg"
  shows "mailbox_send_msg s mb_msg =
           (Inl ENOSPC,
            s\<lparr>trace := trace s @ [Ioread32 (reg_addr s (mb_head_ptr_reg (res s CHAN_RES_X2I)))]\<rparr>)"
  using assms
  by (auto simp: mailbox_send_msg_def mailbox_get_headptr_def mailbox_reg_read_def ioread32_def
        mailbox_get_ringbuf_size_def x2i_no_space_def x2i_head_reg_def x2i_tmp_tail_def
        reg_val_def reg_addr_def emit_def Let_def)

lemma send_msg_wrap:
  assumes "\<not> x2i_no_space s mb_msg" and "x2i_wrap s mb_msg"
  shows "mailbox_send_msg s mb_msg =
           (Inr (),
            s\<lparr>x2i_tail := ucast (pkg_size mb_msg),
              io := store_bytes
                      (store_bytes
                         (store_bytes (io s) (ring_addr s CHAN_RES_X2I (x2i_tail s)) (le32 TOMBSTONE))
                         (ring_addr s CHAN_RES_X2I 0)
                         (take (unat (pkg_size mb_msg)) (pkg_bytes (pkg mb_msg))))
                      (reg_addr s (mb_tail_ptr_reg (res s CHAN_RES_X2I)))
                      (le32 (ucast (pkg_size mb_msg))),
              trace := trace s @
                [Ioread32 (reg_addr s (mb_head_ptr_reg (res s CHAN_RES_X2I))),
                 Iowrite32 TOMBSTONE (ring_addr s CHAN_RES_X2I (x2i_tail s)),
                 Memcpy_toio (ring_addr s CHAN_RES_X2I 0)
                   (take (unat (pkg_size mb_msg)) (pkg_bytes (pkg mb_msg))),
                 Iowrite32 (ucast (pkg_size mb_msg)) (reg_addr s (mb_tail_ptr_reg (res s CHAN_RES_X2I))),
                 Trace_mbox_set_tail (opcode (header (pkg mb_msg))) (id' (header (pkg mb_msg)))]\<rparr>)"
  using assms
  by (auto simp: mailbox_send_msg_def mailbox_get_headptr_def mailbox_reg_read_def ioread32_def
        mailbox_get_ringbuf_size_def x2i_no_space_def x2i_wrap_def x2i_head_reg_def x2i_tmp_tail_def
        mailbox_set_tailptr_def mailbox_reg_write_def iowrite32_def memcpy_toio_def
        reg_val_def reg_addr_def ring_addr_def emit_def Let_def)

lemma send_msg_normal:
  assumes "\<not> x2i_no_space s mb_msg" and "\<not> x2i_wrap s mb_msg"
  shows "mailbox_send_msg s mb_msg =
           (Inr (),
            s\<lparr>x2i_tail := x2i_tmp_tail s mb_msg,
              io := store_bytes
                      (store_bytes (io s) (ring_addr s CHAN_RES_X2I (x2i_tail s))
                         (take (unat (pkg_size mb_msg)) (pkg_bytes (pkg mb_msg))))
                      (reg_addr s (mb_tail_ptr_reg (res s CHAN_RES_X2I)))
                      (le32 (x2i_tmp_tail s mb_msg)),
              trace := trace s @
                [Ioread32 (reg_addr s (mb_head_ptr_reg (res s CHAN_RES_X2I))),
                 Memcpy_toio (ring_addr s CHAN_RES_X2I (x2i_tail s))
                   (take (unat (pkg_size mb_msg)) (pkg_bytes (pkg mb_msg))),
                 Iowrite32 (x2i_tmp_tail s mb_msg) (reg_addr s (mb_tail_ptr_reg (res s CHAN_RES_X2I))),
                 Trace_mbox_set_tail (opcode (header (pkg mb_msg))) (id' (header (pkg mb_msg)))]\<rparr>)"
  using assms
  by (auto simp: mailbox_send_msg_def mailbox_get_headptr_def mailbox_reg_read_def ioread32_def
        mailbox_get_ringbuf_size_def x2i_no_space_def x2i_wrap_def x2i_head_reg_def x2i_tmp_tail_def
        mailbox_set_tailptr_def mailbox_reg_write_def iowrite32_def memcpy_toio_def
        reg_val_def reg_addr_def ring_addr_def emit_def Let_def)

lemma send_rejects:
  assumes "\<not> send_accepts s m"
  shows "\<exists>txt. xdna_mailbox_send_msg s m t = (Inl EINVAL, s\<lparr>trace := trace s @ [MB_ERR txt]\<rparr>)"
  using assms
  by (auto simp: xdna_mailbox_send_msg_def send_accepts_def mailbox_get_ringbuf_size_def emit_def
        Let_def not_le)

lemma send_accepts_simps:
  assumes "send_accepts s m"
  shows "(ucast (rb_size (res s CHAN_RES_X2I)) < 16 + send_size m) = False"
    and "IS_ALIGNED (send_size m) 4" and "(payload_first_word m = TOMBSTONE) = False"
  using assms by (simp_all add: send_accepts_def)

lemma send_nomem:
  assumes "send_accepts s m" and "fst (kzalloc s) = None"
  shows "xdna_mailbox_send_msg s m t = (Inl ENOMEM, snd (kzalloc s))"
proof (cases "kzalloc s")
  case (Pair p s1)
  with assms(2) have "p = None" by simp
  with Pair show ?thesis
    by (simp add: xdna_mailbox_send_msg_def send_accepts_simps [OF assms(1)]
          mailbox_get_ringbuf_size_def Let_def)
qed

lemma send_noid:
  assumes "send_accepts s m" and "allocs s = Some a # rest"
      and "idr_alloc_cyclic (chan_idr s) (pending_record a m 0) 0 MAX_MSG_ID_ENTRIES = (Inl e, r')"
  shows "xdna_mailbox_send_msg s m t =
           (Inl e, s\<lparr>allocs := rest, chan_idr := r',
                     trace := trace s @ [MB_ERR ''mailbox_acquire_msgid failed'', Kfree a]\<rparr>)"
  using assms(2,3)
  by (simp add: xdna_mailbox_send_msg_def send_accepts_simps [OF assms(1)]
        mailbox_get_ringbuf_size_def
        kzalloc_def mailbox_acquire_msgid_def pending_record_def zero_mailbox_msg_def
        emit_def kfree_def Let_def)

lemma send_reaches_ring:
  assumes "send_accepts s m" and "allocs s = Some a # rest"
      and "idr_alloc_cyclic (chan_idr s) (pending_record a m 0) 0 MAX_MSG_ID_ENTRIES = (Inr k, r')"
  shows "xdna_mailbox_send_msg s m t =
     (let msg_id = of_nat k OR MAGIC_VAL;
          mb_msg = pending_record a m msg_id;
          s4 = s\<lparr>allocs := rest,
                 chan_idr := idr_store r' (unat (msg_id AND NOT MAGIC_VAL_MASK)) mb_msg,
                 trace := trace s @
                   [MB_DBG ''opcode 0x%x size %d id 0x%x'' [m_opcode m, ucast (send_size m), msg_id]]\<rparr>
      in case mailbox_send_msg s4 mb_msg of
           (Inr u, s5) \<Rightarrow> (Inr (), s5)
         | (Inl e, s5) \<Rightarrow>
             (Inl e,
              s5\<lparr>chan_idr := idr_remove (chan_idr s5) (unat (msg_id AND NOT MAGIC_VAL_MASK)),
                 trace := trace s5 @ [MB_DBG ''Error in mailbox send msg, ret %d'' [], Kfree a]\<rparr>))"
  using assms(2,3)
  by (simp add: xdna_mailbox_send_msg_def send_accepts_simps [OF assms(1)]
        mailbox_get_ringbuf_size_def
        kzalloc_def mailbox_acquire_msgid_def pending_record_def zero_mailbox_msg_def
        mailbox_release_msgid_def emit_def kfree_def Let_def
        split: prod.splits sum.splits)

lemma idr_alloc_u32_Inl:
  "idr_alloc_u32 r p lo hi = (Inl e, r') \<Longrightarrow> e = ENOSPC \<and> r' = r"
  by (auto simp: idr_alloc_u32_def split: option.splits)

lemma idr_alloc_cyclic_Inl:
  assumes "idr_alloc_cyclic r p start e = (Inl x, r')"
  shows "x = ENOSPC \<and> r' = r"
  using assms
  by (auto simp: idr_alloc_cyclic_def Let_def split: prod.splits sum.splits if_splits
           dest!: idr_alloc_u32_Inl)

lemma send_msg_Inl:
  assumes "fst (mailbox_send_msg s mb_msg) = Inl e"
  shows "e = ENOSPC \<and> x2i_no_space s mb_msg"
proof (cases "x2i_no_space s mb_msg")
  case True
  with assms show ?thesis by (simp add: send_msg_no_space)
next
  case False
  with assms show ?thesis
    by (cases "x2i_wrap s mb_msg") (simp_all add: send_msg_wrap send_msg_normal)
qed

lemma send_msg_Inl_pair:
  "mailbox_send_msg s mb_msg = (Inl e, s') \<Longrightarrow> e = ENOSPC"
  using send_msg_Inl [of s mb_msg e] by simp

lemma allocs_of_kzalloc:
  "fst (kzalloc s) = Some a \<Longrightarrow> \<exists>rest. allocs s = Some a # rest"
  by (auto simp: kzalloc_def split: list.splits)

lemma send_accepted_not_EINVAL:
  assumes "send_accepts s m"
  shows "fst (xdna_mailbox_send_msg s m t) \<noteq> Inl EINVAL"
proof (cases "fst (kzalloc s)")
  case None
  with assms show ?thesis by (simp add: send_nomem)
next
  case (Some a)
  then obtain rest where al: "allocs s = Some a # rest"
    using allocs_of_kzalloc by blast
  obtain ret r' where ac:
    "idr_alloc_cyclic (chan_idr s) (pending_record a m 0) 0 MAX_MSG_ID_ENTRIES = (ret, r')"
    by (cases "idr_alloc_cyclic (chan_idr s) (pending_record a m 0) 0 MAX_MSG_ID_ENTRIES")
  show ?thesis
  proof (cases ret)
    case (Inl e)
    with ac have "e = ENOSPC" using idr_alloc_cyclic_Inl by blast
    with Inl ac show ?thesis by (simp add: send_noid [OF assms al])
  next
    case (Inr k)
    show ?thesis
      by (auto simp: send_reaches_ring [OF assms al ac [unfolded Inr]] Let_def
               split: prod.splits sum.splits dest: send_msg_Inl_pair)
  qed
qed

text \<open>The framed size as the code computes it, and as a number.\<close>

lemma framed_size_compare:
  fixes N :: u32
  assumes "unat (send_size m) < 2 ^ 64 - 16"
  shows "(16 + send_size m > ucast N) \<longleftrightarrow> (16 + unat (send_size m) > unat N)"
proof -
  from assms have "16 + unat (send_size m) < 2 ^ 64" by simp
  then have "unat (16 + send_size m) = 16 + unat (send_size m)"
    by (simp add: unat_word_ariths)
  then show ?thesis
    by (simp add: word_less_nat_alt unat_ucast_up32)
qed

text \<open>
  C7. \<^verbatim>\<open>xdna_mailbox_send_msg\<close> returns \<open>EINVAL\<close> exactly when the payload length is not a
  multiple of 4, or the first 32-bit word at the payload pointer is the tombstone, or the
  framed size \<^verbatim>\<open>sizeof(struct xdna_msg_header) + send_size\<close> (a \<^verbatim>\<open>size_t\<close>, as the code
  computes it; for a payload of less than \<open>2\<^sup>6\<^sup>4 - 16\<close> bytes that is the number
  \<open>16 + send_size\<close>) exceeds the size of the X2I ring. In that case the state is as before but for
  one error message in the log: no allocation was made, no identifier taken, nothing written
  to the I/O space, no callback called.
\<close>

theorem send_invalid_argument:
  "(fst (xdna_mailbox_send_msg s m t) = Inl EINVAL \<longleftrightarrow>
      \<not> 4 dvd unat (send_size m) \<or> payload_first_word m = TOMBSTONE \<or>
      16 + send_size m > ucast (rb_size (res s CHAN_RES_X2I))) \<and>
   (fst (xdna_mailbox_send_msg s m t) = Inl EINVAL \<longrightarrow>
      (\<exists>txt. snd (xdna_mailbox_send_msg s m t) = s\<lparr>trace := trace s @ [MB_ERR txt]\<rparr>))"
proof -
  have c: "send_accepts s m \<longleftrightarrow>
      \<not> (\<not> 4 dvd unat (send_size m) \<or> payload_first_word m = TOMBSTONE \<or>
      16 + send_size m > ucast (rb_size (res s CHAN_RES_X2I)))"
    by (auto simp: send_accepts_def IS_ALIGNED_4)
  show ?thesis
  proof (cases "send_accepts s m")
    case True
    then show ?thesis
      using send_accepted_not_EINVAL [of s m t] c by simp
  next
    case False
    then obtain w where
      "xdna_mailbox_send_msg s m t = (Inl EINVAL, s\<lparr>trace := trace s @ [MB_ERR w]\<rparr>)"
      using send_rejects by blast
    then show ?thesis using False c by auto
  qed
qed

text \<open>
  C9. With all 256 identifiers pending, a send whose arguments are valid and whose record
  was allocated fails with the error of the identifier allocation, \<open>ENOSPC\<close> from
  \<^verbatim>\<open>idr_alloc_cyclic\<close> (the exhaustion of the identifiers; the code has no error number of
  its own for it, a full ring gives \<open>ENOSPC\<close> as well). The record is freed, and the state
  is otherwise as before: the IDR, the I/O space and the cached tail are unchanged.
\<close>

theorem send_fails_when_ids_exhausted:
  assumes "send_accepts s m"
      and "allocs s = Some a # rest"
      and "\<forall>k<256. idr_find (chan_idr s) k \<noteq> None"
  shows "xdna_mailbox_send_msg s m t =
           (Inl ENOSPC,
            s\<lparr>allocs := rest,
              trace := trace s @ [MB_ERR ''mailbox_acquire_msgid failed'', Kfree a]\<rparr>)"
proof -
  have "idr_alloc_cyclic (chan_idr s) (pending_record a m 0) 0 MAX_MSG_ID_ENTRIES =
          (Inl ENOSPC, chan_idr s)"
    using assms(3) by (intro idr_alloc_cyclic_full) (simp_all add: MAX_MSG_ID_ENTRIES_def idr_find_def)
  from send_noid [OF assms(1,2) this] show ?thesis by simp
qed

lemma payload_first_word_ex_msg: "payload_first_word (ex_msg n) = 0"
  by (simp add: payload_first_word_def ex_msg_def upt_conv_Cons)

theorem send_invalid_argument_witness:
  "\<not> 4 dvd unat (send_size (ex_msg 6)) \<and>
   fst (xdna_mailbox_send_msg ex_chan (ex_msg 6) 0) = Inl EINVAL \<and>
   (\<exists>w. snd (xdna_mailbox_send_msg ex_chan (ex_msg 6) 0) = ex_chan\<lparr>trace := [MB_ERR w]\<rparr>)"
proof -
  have 1: "\<not> 4 dvd unat (send_size (ex_msg 6))"
    by (simp add: ex_msg_def)
  have 2: "trace ex_chan = []"
    by (simp add: ex_chan_def)
  from send_invalid_argument [of ex_chan "ex_msg 6" 0] 1 show ?thesis
    by (simp add: 2)
qed

theorem send_fails_when_ids_exhausted_witness:
  "send_accepts ex_full (ex_msg 16) \<and> allocs ex_full = [Some 7] \<and>
   length (idr_rt (chan_idr ex_full)) = 256 \<and>
   xdna_mailbox_send_msg ex_full (ex_msg 16) 0 =
     (Inl ENOSPC,
      ex_full\<lparr>allocs := [], trace := [MB_ERR ''mailbox_acquire_msgid failed'', Kfree 7]\<rparr>)"
proof -
  have 1: "send_accepts ex_full (ex_msg 16)"
    by (simp add: send_accepts_def IS_ALIGNED_4 payload_first_word_ex_msg TOMBSTONE_def)
       (simp add: ex_full_def ex_chan_def ex_res_def ex_msg_def)
  have 2: "allocs ex_full = Some 7 # []"
    by (simp add: ex_full_def ex_chan_def)
  have 3: "\<forall>k<256. idr_find (chan_idr ex_full) k \<noteq> None"
    by (simp add: idr_find_def ex_full_def map_of_map_restrict restrict_map_def)
  have 4: "trace ex_full = []" "length (idr_rt (chan_idr ex_full)) = 256"
    by (simp_all add: ex_full_def ex_chan_def)
  from send_fails_when_ids_exhausted [OF 1 2 3, of 0] 1 2 4 show ?thesis
    by simp
qed

lemma idr_others_kept:
  assumes "map_of rt k = None"
  shows "filter (\<lambda>e. fst e \<noteq> k) (map (\<lambda>e. if fst e = k then (k, p') else e) rt) = rt"
  using assms
proof (induction rt)
  case Nil
  show ?case by simp
next
  case (Cons e rt)
  then have "fst e \<noteq> k" "map_of rt k = None"
    by (cases e; auto split: if_splits)+
  with Cons.IH show ?case by simp
qed

lemma idr_restore:
  assumes "map_of rt k = None"
  shows "filter (\<lambda>e. fst e \<noteq> k)
           (map (\<lambda>e. if fst e = k then (k, p') else e) (insort_key fst (k, p) rt)) = rt"
  using assms
proof (induction rt)
  case Nil
  show ?case by simp
next
  case (Cons e rt)
  then have "fst e \<noteq> k" "map_of rt k = None"
    by (cases e; auto split: if_splits)+
  with Cons.IH show ?case by (simp add: idr_others_kept)
qed

lemma idr_stored:
  shows "map_of (map (\<lambda>e. if fst e = k then (k, p') else e) (insort_key fst (k, p) rt)) k = Some p'"
  by (induction rt) auto

lemma send_accepts_math:
  assumes "16 + unat (send_size m) \<le> unat (rb_size (res s CHAN_RES_X2I))"
      and "4 dvd unat (send_size m)" and "payload_first_word m \<noteq> TOMBSTONE"
  shows "send_accepts s m"
proof -
  have "unat (16 + send_size m) \<le> unat (ucast (rb_size (res s CHAN_RES_X2I)) :: u64)"
    using assms(1) by (simp add: framed_size_unat(1) [OF assms(1)] unat_ucast_up32)
  then have "\<not> 16 + send_size m > ucast (rb_size (res s CHAN_RES_X2I))"
    by (simp add: word_less_nat_alt)
  with assms(2,3) show ?thesis
    by (simp add: send_accepts_def IS_ALIGNED_4)
qed

text \<open>The tests of the ring write, in the 32-bit terms of the ring.\<close>

lemma ring_tests:
  fixes s4 :: kstate
  assumes "16 + unat (send_size m) \<le> unat (rb_size (res s CHAN_RES_X2I))"
      and "x2i_tail s4 = x2i_tail s" and "x2i_head_reg s4 = x2i_head_reg s" and "res s4 = res s"
  shows "x2i_tmp_tail s4 (pending_record a m i) = x2i_tail s + ucast (16 + send_size m)"
    and "x2i_no_space s4 (pending_record a m i) \<longleftrightarrow>
           x2i_tail s < x2i_head_reg s \<and> x2i_tail s + ucast (16 + send_size m) \<ge> x2i_head_reg s \<or>
           x2i_tail s \<ge> x2i_head_reg s \<and>
             x2i_tail s + ucast (16 + send_size m) > rb_size (res s CHAN_RES_X2I) - 4 \<and>
             (ucast (16 + send_size m) :: u32) \<ge> x2i_head_reg s"
    and "x2i_wrap s4 (pending_record a m i) \<longleftrightarrow>
           x2i_tail s \<ge> x2i_head_reg s \<and>
             x2i_tail s + ucast (16 + send_size m) > rb_size (res s CHAN_RES_X2I) - 4"
proof -
  have n4: "4 \<le> unat (rb_size (res s CHAN_RES_X2I))" using assms(1) by linarith
  show t: "x2i_tmp_tail s4 (pending_record a m i) = x2i_tail s + ucast (16 + send_size m)"
    by (simp add: x2i_tmp_tail_def pending_record_def assms(2) ucast_down_add ucast_down_up)
  have h: "(16 + send_size m \<ge> ucast (x2i_head_reg s)) \<longleftrightarrow>
           ((ucast (16 + send_size m) :: u32) \<ge> x2i_head_reg s)"
    by (simp add: word_le_nat_alt framed_size_unat [OF assms(1)] unat_ucast_up32)
  show "x2i_no_space s4 (pending_record a m i) \<longleftrightarrow>
           x2i_tail s < x2i_head_reg s \<and> x2i_tail s + ucast (16 + send_size m) \<ge> x2i_head_reg s \<or>
           x2i_tail s \<ge> x2i_head_reg s \<and>
             x2i_tail s + ucast (16 + send_size m) > rb_size (res s CHAN_RES_X2I) - 4 \<and>
             (ucast (16 + send_size m) :: u32) \<ge> x2i_head_reg s"
    unfolding x2i_no_space_def t assms(2,3,4) ring_end_compare [OF n4]
    by (simp add: pending_record_def h)
  show "x2i_wrap s4 (pending_record a m i) \<longleftrightarrow>
           x2i_tail s \<ge> x2i_head_reg s \<and>
             x2i_tail s + ucast (16 + send_size m) > rb_size (res s CHAN_RES_X2I) - 4"
    unfolding x2i_wrap_def t assms(2,3,4) ring_end_compare [OF n4] by simp
qed

text \<open>The sum \<^verbatim>\<open>tmp_tail\<close> is the sum of the numbers as long as that is below \<open>2\<^sup>3\<^sup>2\<close>.\<close>

lemma tmp_tail_sum:
  assumes "unat (x2i_tail s) + (16 + unat (send_size m)) < 2 ^ 32"
  shows "unat (x2i_tmp_tail s (pending_record a m i)) = unat (x2i_tail s) + (16 + unat (send_size m))"
    and "unat (x2i_tail s + ucast (16 + send_size m)) = unat (x2i_tail s) + (16 + unat (send_size m))"
proof -
  from assms have b: "16 + unat (send_size m) < 2 ^ 32" by linarith
  then have "16 + unat (send_size m) < 2 ^ 64" by simp
  then have 1: "unat (16 + send_size m) = 16 + unat (send_size m)"
    by (simp add: unat_word_ariths)
  have "unat (ucast (16 + send_size m) :: u32) = take_bit 32 (unat (16 + send_size m))"
    by (simp only: unsigned_ucast_eq) simp
  also have "\<dots> = 16 + unat (send_size m)"
    using b by (simp only: 1 take_bit_nat_eq_self)
  finally have 2: "unat (ucast (16 + send_size m) :: u32) = 16 + unat (send_size m)" .
  show 3: "unat (x2i_tail s + ucast (16 + send_size m)) = unat (x2i_tail s) + (16 + unat (send_size m))"
    using assms by (simp add: unat_word_ariths 2)
  have "x2i_tmp_tail s (pending_record a m i) = x2i_tail s + ucast (16 + send_size m)"
    by (simp add: x2i_tmp_tail_def pending_record_def ucast_down_add ucast_down_up)
  with 3 show "unat (x2i_tmp_tail s (pending_record a m i)) = unat (x2i_tail s) + (16 + unat (send_size m))"
    by simp
qed

lemma length_pkg_bytes:
  "length (pkg_bytes (pkg (pending_record a m i))) = 16 + unat (send_size m)"
  by (simp add: pkg_bytes_def header_bytes_def le32_def pending_record_def)

text \<open>A send that reaches the ring write, with the identifier it was given.\<close>

lemma send_at_ring:
  assumes "16 + unat (send_size m) \<le> unat (rb_size (res s CHAN_RES_X2I))"
      and "4 dvd unat (send_size m)" and "payload_first_word m \<noteq> TOMBSTONE"
      and "allocs s = Some a # rest"
      and "\<exists>k<256. idr_find (chan_idr s) k = None"
  obtains k r' where "k < 256" and "idr_find (chan_idr s) k = None"
      and "idr_rt r' = insort_key fst (k, pending_record a m 0) (idr_rt (chan_idr s))"
      and "xdna_mailbox_send_msg s m t =
     (let msg_id = of_nat k OR MAGIC_VAL;
          mb_msg = pending_record a m msg_id;
          s4 = s\<lparr>allocs := rest,
                 chan_idr := idr_store r' k mb_msg,
                 trace := trace s @
                   [MB_DBG ''opcode 0x%x size %d id 0x%x'' [m_opcode m, ucast (send_size m), msg_id]]\<rparr>
      in case mailbox_send_msg s4 mb_msg of
           (Inr u, s5) \<Rightarrow> (Inr (), s5)
         | (Inl e, s5) \<Rightarrow>
             (Inl e,
              s5\<lparr>chan_idr := idr_remove (chan_idr s5) k,
                 trace := trace s5 @ [MB_DBG ''Error in mailbox send msg, ret %d'' [], Kfree a]\<rparr>))"
proof -
  from assms(5) obtain k0 where "k0 < 256" "map_of (idr_rt (chan_idr s)) k0 = None"
    by (auto simp: idr_find_def)
  then obtain k r' where
    ac: "idr_alloc_cyclic (chan_idr s) (pending_record a m 0) 0 MAX_MSG_ID_ENTRIES = (Inr k, r')"
    using idr_alloc_cyclic_free [of 0 k0 MAX_MSG_ID_ENTRIES "chan_idr s" "pending_record a m 0"]
    by (auto simp: MAX_MSG_ID_ENTRIES_def)
  from idr_alloc_cyclic_Inr [OF ac] have
    k: "k < 256" "idr_find (chan_idr s) k = None"
       "idr_rt r' = insort_key fst (k, pending_record a m 0) (idr_rt (chan_idr s))"
    by (simp_all add: MAX_MSG_ID_ENTRIES_def idr_find_def)
  note acc = send_accepts_math [OF assms(1-3)]
  show thesis
    apply (rule that [OF k])
    unfolding send_reaches_ring [OF acc assms(4) ac] Let_def magic_index [OF k(1)]
    apply (rule refl)
    done
qed

text \<open>
  C2. Take a send that reaches the ring write: its arguments are valid (the framed size
  \<open>S\<close> of header and payload is at most the ring size \<open>N\<close>), its record was allocated and
  an identifier was free. It returns \<open>ENOSPC\<close> from the ring write exactly when
  \<open>T < H\<close> and \<open>T + S \<ge> H\<close>, or \<open>T \<ge> H\<close> and \<open>T + S > N - 4\<close> and \<open>S \<ge> H\<close>, for the cached
  tail \<open>T\<close> and the head register \<open>H\<close>; the arithmetic is the unsigned 32-bit arithmetic
  of the code (\<open>T + S\<close> is its \<^verbatim>\<open>tmp_tail\<close>, the sum of the two numbers whenever that is
  below \<open>2\<^sup>3\<^sup>2\<close>). Then nothing was written to the I/O space (the
  ring and the tail register are as before), the cached tail is unchanged, the IDR holds
  the entries it held before, the record was freed, and no callback was called. (A send
  that finds no free identifier returns the same error number without coming to the ring
  write, as shown above.)
\<close>

theorem send_no_space_iff_ring_full:
  assumes "16 + unat (send_size m) \<le> unat (rb_size (res s CHAN_RES_X2I))"
      and "4 dvd unat (send_size m)" and "payload_first_word m \<noteq> TOMBSTONE"
      and "allocs s = Some a # rest"
      and "\<exists>k<256. idr_find (chan_idr s) k = None"
  shows "let T = x2i_tail s; H = x2i_head_reg s; N = rb_size (res s CHAN_RES_X2I);
             S = (ucast (16 + send_size m) :: u32);
             full = (T < H \<and> T + S \<ge> H \<or> T \<ge> H \<and> T + S > N - 4 \<and> S \<ge> H);
             s' = snd (xdna_mailbox_send_msg s m t)
         in (fst (xdna_mailbox_send_msg s m t) = Inl ENOSPC \<longleftrightarrow> full) \<and>
            (full \<longrightarrow>
               io s' = io s \<and> x2i_tail s' = x2i_tail s \<and>
               reg_val s' (mb_tail_ptr_reg (res s' CHAN_RES_X2I)) =
                 reg_val s (mb_tail_ptr_reg (res s CHAN_RES_X2I)) \<and>
               filter is_io_write (trace s') = filter is_io_write (trace s) \<and>
               idr_rt (chan_idr s') = idr_rt (chan_idr s) \<and>
               allocs s' = rest \<and>
               filter is_kfree (trace s') = filter is_kfree (trace s) @ [Kfree a] \<and>
               filter is_notify (trace s') = filter is_notify (trace s))"
proof -
  from send_at_ring [OF assms, of t] obtain k r' where
    k: "k < 256" "idr_find (chan_idr s) k = None"
       "idr_rt r' = insort_key fst (k, pending_record a m 0) (idr_rt (chan_idr s))"
    and u: "xdna_mailbox_send_msg s m t =
     (let msg_id = of_nat k OR MAGIC_VAL;
          mb_msg = pending_record a m msg_id;
          s4 = s\<lparr>allocs := rest,
                 chan_idr := idr_store r' k mb_msg,
                 trace := trace s @
                   [MB_DBG ''opcode 0x%x size %d id 0x%x'' [m_opcode m, ucast (send_size m), msg_id]]\<rparr>
      in case mailbox_send_msg s4 mb_msg of
           (Inr u, s5) \<Rightarrow> (Inr (), s5)
         | (Inl e, s5) \<Rightarrow>
             (Inl e,
              s5\<lparr>chan_idr := idr_remove (chan_idr s5) k,
                 trace := trace s5 @ [MB_DBG ''Error in mailbox send msg, ret %d'' [], Kfree a]\<rparr>))"
    by blast
  define mb where "mb = pending_record a m (of_nat k OR MAGIC_VAL)"
  define s4 where "s4 = s\<lparr>allocs := rest, chan_idr := idr_store r' k mb,
                 trace := trace s @
                   [MB_DBG ''opcode 0x%x size %d id 0x%x''
                      [m_opcode m, ucast (send_size m), of_nat k OR MAGIC_VAL]]\<rparr>"
  have f: "x2i_tail s4 = x2i_tail s" "x2i_head_reg s4 = x2i_head_reg s" "res s4 = res s"
    by (simp_all add: s4_def x2i_head_reg_def reg_val_def reg_addr_def)
  note rt = ring_tests [OF assms(1) f, of a "of_nat k OR MAGIC_VAL", folded mb_def]
  have u': "xdna_mailbox_send_msg s m t =
      (case mailbox_send_msg s4 mb of
           (Inr u, s5) \<Rightarrow> (Inr (), s5)
         | (Inl e, s5) \<Rightarrow>
             (Inl e,
              s5\<lparr>chan_idr := idr_remove (chan_idr s5) k,
                 trace := trace s5 @ [MB_DBG ''Error in mailbox send msg, ret %d'' [], Kfree a]\<rparr>))"
    unfolding u mb_def s4_def Let_def ..
  define full where "full \<longleftrightarrow>
      x2i_tail s < x2i_head_reg s \<and> x2i_tail s + ucast (16 + send_size m) \<ge> x2i_head_reg s \<or>
      x2i_tail s \<ge> x2i_head_reg s \<and>
        x2i_tail s + ucast (16 + send_size m) > rb_size (res s CHAN_RES_X2I) - 4 \<and>
        (ucast (16 + send_size m) :: u32) \<ge> x2i_head_reg s"
  have ns: "x2i_no_space s4 mb = full"
    unfolding full_def by (rule rt(2))
  let ?s' = "snd (xdna_mailbox_send_msg s m t)"
  have main: "(fst (xdna_mailbox_send_msg s m t) = Inl ENOSPC \<longleftrightarrow> full) \<and>
            (full \<longrightarrow>
               io ?s' = io s \<and> x2i_tail ?s' = x2i_tail s \<and>
               reg_val ?s' (mb_tail_ptr_reg (res ?s' CHAN_RES_X2I)) =
                 reg_val s (mb_tail_ptr_reg (res s CHAN_RES_X2I)) \<and>
               filter is_io_write (trace ?s') = filter is_io_write (trace s) \<and>
               idr_rt (chan_idr ?s') = idr_rt (chan_idr s) \<and>
               allocs ?s' = rest \<and>
               filter is_kfree (trace ?s') = filter is_kfree (trace s) @ [Kfree a] \<and>
               filter is_notify (trace ?s') = filter is_notify (trace s))"
  proof (cases "x2i_no_space s4 mb")
    case True
    have "idr_rt (idr_remove (idr_store r' k mb) k) = idr_rt (chan_idr s)"
      using k(2) by (simp add: idr_remove_def idr_store_def k(3) idr_restore idr_find_def)
    with True ns show ?thesis
      unfolding u'
      by (simp add: send_msg_no_space [OF True]) (simp add: s4_def reg_val_def reg_addr_def)
  next
    case False
    then have "fst (mailbox_send_msg s4 mb) = Inr ()"
      by (cases "x2i_wrap s4 mb") (simp_all add: send_msg_wrap send_msg_normal)
    then have "fst (xdna_mailbox_send_msg s m t) = Inr ()"
      unfolding u' by (cases "mailbox_send_msg s4 mb") (auto split: sum.splits)
    with False ns show ?thesis
      by simp
  qed
  then show ?thesis
    unfolding Let_def full_def .
qed

lemma ex_x2i_fields:
  "x2i_tail (ex_x2i T H) = T" "x2i_head_reg (ex_x2i T H) = ucast H"
  "rb_size (res (ex_x2i T H) CHAN_RES_X2I) = 64" "allocs (ex_x2i T H) = Some 7 # []"
  "idr_find (chan_idr (ex_x2i T H)) 0 = None" "idr_rt (chan_idr (ex_x2i T H)) = []"
  "trace (ex_x2i T H) = []"
  by (simp_all add: ex_x2i_def ex_chan_def ex_res_def x2i_head_reg_def reg_val_def reg_addr_def
        load_bytes_4 idr_find_def)

theorem send_no_space_iff_ring_full_witness:
  "x2i_tail (ex_x2i 36 40) = 36 \<and> x2i_head_reg (ex_x2i 36 40) = 40 \<and>
   rb_size (res (ex_x2i 36 40) CHAN_RES_X2I) = 64 \<and>
   (ucast (16 + send_size (ex_msg 16)) :: u32) = 32 \<and>
   fst (xdna_mailbox_send_msg (ex_x2i 36 40) (ex_msg 16) 0) = Inl ENOSPC \<and>
   io (snd (xdna_mailbox_send_msg (ex_x2i 36 40) (ex_msg 16) 0)) = io (ex_x2i 36 40) \<and>
   x2i_tail (snd (xdna_mailbox_send_msg (ex_x2i 36 40) (ex_msg 16) 0)) = 36 \<and>
   filter is_io_write (trace (snd (xdna_mailbox_send_msg (ex_x2i 36 40) (ex_msg 16) 0))) = [] \<and>
   idr_rt (chan_idr (snd (xdna_mailbox_send_msg (ex_x2i 36 40) (ex_msg 16) 0))) = [] \<and>
   filter is_kfree (trace (snd (xdna_mailbox_send_msg (ex_x2i 36 40) (ex_msg 16) 0))) = [Kfree 7]"
proof -
  have 1: "16 + unat (send_size (ex_msg 16)) \<le> unat (rb_size (res (ex_x2i 36 40) CHAN_RES_X2I))"
    by (simp add: ex_x2i_fields) (simp add: ex_msg_def)
  have 2: "4 dvd unat (send_size (ex_msg 16))"
    by (simp add: ex_msg_def)
  have 3: "payload_first_word (ex_msg 16) \<noteq> TOMBSTONE"
    by (simp add: payload_first_word_ex_msg TOMBSTONE_def)
  have 4: "\<exists>k<256. idr_find (chan_idr (ex_x2i 36 40)) k = None"
    using ex_x2i_fields(5) [of 36 40] by (intro exI [of _ 0]) simp
  have 5: "(ucast (16 + send_size (ex_msg 16)) :: u32) = 32"
    by (simp add: ex_msg_def)
  from send_no_space_iff_ring_full [OF 1 2 3 ex_x2i_fields(4) 4, of 0, unfolded Let_def]
  show ?thesis
    by (simp add: ex_x2i_fields 5)
qed

lemma take_pkg_bytes:
  assumes "16 + unat (send_size m) \<le> unat (N :: u32)"
  shows "take (unat (pkg_size (pending_record a m i))) (pkg_bytes (pkg (pending_record a m i))) =
         pkg_bytes (pkg (pending_record a m i))"
proof -
  have "unat (pkg_size (pending_record a m i)) = 16 + unat (send_size m)"
    by (simp add: pending_record_def framed_size_unat(1) [OF assms])
  then show ?thesis by (simp add: length_pkg_bytes)
qed

text \<open>
  C1. Take a send that reaches the ring write (valid arguments, so the framed size \<open>S\<close> is
  at most the ring size \<open>N\<close>; record allocated; an identifier free). If the cached tail
  \<open>T\<close> is at least the head register \<open>H\<close>, \<open>T + S > N - 4\<close> and \<open>S < H\<close>, in the unsigned
  32-bit arithmetic of the code (\<open>T + S\<close> is its \<^verbatim>\<open>tmp_tail\<close>), then the send returns 0 and
  its writes to the I/O space are, in this order: the tombstone as one 32-bit word at ring
  offset \<open>T\<close>, the \<open>S\<close> bytes of the package (header, then payload) at ring offset 0, and
  the value \<open>S\<close> to the X2I tail register. The cached tail is \<open>S\<close>, the tail register reads
  \<open>S\<close>, and the record is pending under the identifier in its header. This holds for every
  ring size, so for the powers of two.
\<close>

theorem send_wraps_with_tombstone:
  assumes "16 + unat (send_size m) \<le> unat (rb_size (res s CHAN_RES_X2I))"
      and "4 dvd unat (send_size m)" and "payload_first_word m \<noteq> TOMBSTONE"
      and "allocs s = Some a # rest"
      and "\<exists>k<256. idr_find (chan_idr s) k = None"
      and "x2i_tail s \<ge> x2i_head_reg s"
      and "x2i_tail s + ucast (16 + send_size m) > rb_size (res s CHAN_RES_X2I) - 4"
      and "(ucast (16 + send_size m) :: u32) < x2i_head_reg s"
  shows "let S = (ucast (16 + send_size m) :: u32);
             s' = snd (xdna_mailbox_send_msg s m t)
         in fst (xdna_mailbox_send_msg s m t) = Inr () \<and>
            x2i_tail s' = S \<and>
            reg_val s' (mb_tail_ptr_reg (res s CHAN_RES_X2I)) = S \<and>
            (\<exists>k<256. idr_find (chan_idr s) k = None \<and>
               idr_find (chan_idr s') k = Some (pending_record a m (of_nat k OR MAGIC_VAL)) \<and>
               length (pkg_bytes (pkg (pending_record a m (of_nat k OR MAGIC_VAL)))) = unat S \<and>
               filter is_io_write (trace s') =
                 filter is_io_write (trace s) @
                 [Iowrite32 TOMBSTONE (ring_addr s CHAN_RES_X2I (x2i_tail s)),
                  Memcpy_toio (ring_addr s CHAN_RES_X2I 0)
                    (pkg_bytes (pkg (pending_record a m (of_nat k OR MAGIC_VAL)))),
                  Iowrite32 S (reg_addr s (mb_tail_ptr_reg (res s CHAN_RES_X2I)))])"
proof -
  from send_at_ring [OF assms(1-5), of t] obtain k r' where
    k: "k < 256" "idr_find (chan_idr s) k = None"
       "idr_rt r' = insort_key fst (k, pending_record a m 0) (idr_rt (chan_idr s))"
    and u: "xdna_mailbox_send_msg s m t =
     (let msg_id = of_nat k OR MAGIC_VAL;
          mb_msg = pending_record a m msg_id;
          s4 = s\<lparr>allocs := rest,
                 chan_idr := idr_store r' k mb_msg,
                 trace := trace s @
                   [MB_DBG ''opcode 0x%x size %d id 0x%x'' [m_opcode m, ucast (send_size m), msg_id]]\<rparr>
      in case mailbox_send_msg s4 mb_msg of
           (Inr u, s5) \<Rightarrow> (Inr (), s5)
         | (Inl e, s5) \<Rightarrow>
             (Inl e,
              s5\<lparr>chan_idr := idr_remove (chan_idr s5) k,
                 trace := trace s5 @ [MB_DBG ''Error in mailbox send msg, ret %d'' [], Kfree a]\<rparr>))"
    by blast
  define mb where "mb = pending_record a m (of_nat k OR MAGIC_VAL)"
  define s4 where "s4 = s\<lparr>allocs := rest, chan_idr := idr_store r' k mb,
                 trace := trace s @
                   [MB_DBG ''opcode 0x%x size %d id 0x%x''
                      [m_opcode m, ucast (send_size m), of_nat k OR MAGIC_VAL]]\<rparr>"
  have f: "x2i_tail s4 = x2i_tail s" "x2i_head_reg s4 = x2i_head_reg s" "res s4 = res s"
    by (simp_all add: s4_def x2i_head_reg_def reg_val_def reg_addr_def)
  note rt = ring_tests [OF assms(1) f, of a "of_nat k OR MAGIC_VAL", folded mb_def]
  have u': "xdna_mailbox_send_msg s m t =
      (case mailbox_send_msg s4 mb of
           (Inr u, s5) \<Rightarrow> (Inr (), s5)
         | (Inl e, s5) \<Rightarrow>
             (Inl e,
              s5\<lparr>chan_idr := idr_remove (chan_idr s5) k,
                 trace := trace s5 @ [MB_DBG ''Error in mailbox send msg, ret %d'' [], Kfree a]\<rparr>))"
    unfolding u mb_def s4_def Let_def ..
  have nh: "\<not> x2i_tail s < x2i_head_reg s" "\<not> (ucast (16 + send_size m) :: u32) \<ge> x2i_head_reg s"
    using assms(6,8) by simp_all
  have ns: "\<not> x2i_no_space s4 mb"
    unfolding rt(2) using nh by blast
  have w: "x2i_wrap s4 mb"
    unfolding rt(3) using assms(6,7) by blast
  have tk: "take (unat (pkg_size mb)) (pkg_bytes (pkg mb)) = pkg_bytes (pkg mb)"
    unfolding mb_def by (rule take_pkg_bytes [OF assms(1)])
  have ps: "ucast (pkg_size mb) = (ucast (16 + send_size m) :: u32)"
    by (simp add: mb_def pending_record_def)
  have st: "idr_find (idr_store r' k mb) k = Some mb"
    by (simp add: idr_find_def idr_store_def k(3) idr_stored)
  have len: "length (pkg_bytes (pkg mb)) = unat (ucast (16 + send_size m) :: u32)"
    by (simp add: mb_def length_pkg_bytes framed_size_unat(2) [OF assms(1)])
  have a1: "fst (xdna_mailbox_send_msg s m t) = Inr ()"
    unfolding u' by (simp add: send_msg_wrap [OF ns w])
  have a2: "x2i_tail (snd (xdna_mailbox_send_msg s m t)) = ucast (16 + send_size m)"
    unfolding u' by (simp add: send_msg_wrap [OF ns w] ps)
  have a3: "reg_val (snd (xdna_mailbox_send_msg s m t)) (mb_tail_ptr_reg (res s CHAN_RES_X2I)) =
            ucast (16 + send_size m)"
    unfolding u'
    by (simp add: send_msg_wrap [OF ns w] ps reg_val_def reg_addr_def load_store_le32 from_le32_le32)
       (simp add: s4_def load_store_le32 from_le32_le32)
  have a4: "idr_find (chan_idr (snd (xdna_mailbox_send_msg s m t))) k = Some mb"
    unfolding u' by (simp add: send_msg_wrap [OF ns w]) (simp add: s4_def st)
  have a5: "filter is_io_write (trace (snd (xdna_mailbox_send_msg s m t))) =
                 filter is_io_write (trace s) @
                 [Iowrite32 TOMBSTONE (ring_addr s CHAN_RES_X2I (x2i_tail s)),
                  Memcpy_toio (ring_addr s CHAN_RES_X2I 0) (pkg_bytes (pkg mb)),
                  Iowrite32 (ucast (16 + send_size m)) (reg_addr s (mb_tail_ptr_reg (res s CHAN_RES_X2I)))]"
    unfolding u'
    by (simp add: send_msg_wrap [OF ns w] ps tk) (simp add: s4_def ring_addr_def reg_addr_def)
  show ?thesis
    unfolding Let_def
    using a1 a2 a3 k(1,2) a4 len a5 unfolding mb_def by blast
qed

theorem send_wraps_with_tombstone_witness:
  "rb_size (res (ex_x2i 48 40) CHAN_RES_X2I) = 64 \<and> x2i_tail (ex_x2i 48 40) = 48 \<and>
   x2i_head_reg (ex_x2i 48 40) = 40 \<and> (ucast (16 + send_size (ex_msg 16)) :: u32) = 32 \<and>
   fst (xdna_mailbox_send_msg (ex_x2i 48 40) (ex_msg 16) 0) = Inr () \<and>
   x2i_tail (snd (xdna_mailbox_send_msg (ex_x2i 48 40) (ex_msg 16) 0)) = 32 \<and>
   reg_val (snd (xdna_mailbox_send_msg (ex_x2i 48 40) (ex_msg 16) 0)) 0x14 = 32 \<and>
   (\<exists>k<256.
      length (pkg_bytes (pkg (pending_record 7 (ex_msg 16) (of_nat k OR MAGIC_VAL)))) = 32 \<and>
      filter is_io_write (trace (snd (xdna_mailbox_send_msg (ex_x2i 48 40) (ex_msg 16) 0))) =
        [Iowrite32 0xDEADFACE 0x101030,
         Memcpy_toio 0x101000 (pkg_bytes (pkg (pending_record 7 (ex_msg 16) (of_nat k OR MAGIC_VAL)))),
         Iowrite32 32 0x200014])"
proof -
  let ?s = "ex_x2i 48 40"
  have 1: "16 + unat (send_size (ex_msg 16)) \<le> unat (rb_size (res ?s CHAN_RES_X2I))"
    by (simp add: ex_x2i_fields) (simp add: ex_msg_def)
  have 2: "4 dvd unat (send_size (ex_msg 16))"
    by (simp add: ex_msg_def)
  have 3: "payload_first_word (ex_msg 16) \<noteq> TOMBSTONE"
    by (simp add: payload_first_word_ex_msg TOMBSTONE_def)
  have 4: "\<exists>k<256. idr_find (chan_idr ?s) k = None"
    using ex_x2i_fields(5) [of 48 40] by (intro exI [of _ 0]) simp
  have 5: "(ucast (16 + send_size (ex_msg 16)) :: u32) = 32"
    by (simp add: ex_msg_def)
  have 6: "x2i_tail ?s \<ge> x2i_head_reg ?s"
    by (simp add: ex_x2i_fields)
  have 7: "x2i_tail ?s + ucast (16 + send_size (ex_msg 16)) > rb_size (res ?s CHAN_RES_X2I) - 4"
    by (simp add: ex_x2i_fields 5)
  have 8: "(ucast (16 + send_size (ex_msg 16)) :: u32) < x2i_head_reg ?s"
    by (simp add: ex_x2i_fields 5)
  have 10: "mb_tail_ptr_reg (res ?s CHAN_RES_X2I) = 0x14" "mbox_base (mres (mb ?s)) = 0x200000"
    "ringbuf_base (mres (mb ?s)) = 0x100000" "rb_start_addr (res ?s CHAN_RES_X2I) = 0x1000"
    by (simp_all add: ex_x2i_def ex_chan_def ex_res_def)
  from send_wraps_with_tombstone [OF 1 2 3 ex_x2i_fields(4) 4 6 7 8, of 0, unfolded Let_def]
  show ?thesis
    by (simp add: ex_x2i_fields 5 10 ring_addr_def reg_addr_def TOMBSTONE_def) blast
qed

text \<open>What an accepted send puts into the header.\<close>

lemma pending_record_header:
  "total_size (header (pkg (pending_record a m i))) = ucast (send_size m)"
  "size' (header (pkg (pending_record a m i))) = ucast (send_size m)"
  "protocol_version (header (pkg (pending_record a m i))) = 1"
  "opcode (header (pkg (pending_record a m i))) = m_opcode m"
  "id' (header (pkg (pending_record a m i))) = i"
  by (simp_all add: pending_record_def MSG_PROTOCOL_VERSION_def)

lemma size_field_mod:
  "unat (size' (header (pkg (pending_record a m i)))) = unat (send_size m) mod 2048"
  by (simp add: pending_record_def unsigned_ucast_eq take_bit_eq_mod)

lemma total_size_exact:
  assumes "16 + unat (send_size m) \<le> unat (N :: u32)"
  shows "unat (total_size (header (pkg (pending_record a m i)))) = unat (send_size m)"
proof -
  have "unat N < 2 ^ 32" using unsigned_less [of N, where 'a = nat] by simp
  with assms have "unat (send_size m) < 2 ^ 32" by linarith
  then show ?thesis
    by (simp add: pending_record_def unsigned_ucast_eq take_bit_nat_eq_self)
qed

lemma ex_big_alloc:
  "idr_alloc_cyclic (chan_idr ex_big) p 0 MAX_MSG_ID_ENTRIES =
     (Inr 0, \<lparr>idr_rt = [(0, p)], idr_next = 1\<rparr>)"
  by (simp add: idr_alloc_cyclic_def idr_alloc_u32_def idr_get_free_first MAX_MSG_ID_ENTRIES_def
        INT_MAX_def Let_def ex_big_def ex_chan_def)

text \<open>
  C6. The header of an accepted send carries the opcode of the caller, protocol version 1,
  the allocated identifier, and \<^verbatim>\<open>total_size\<close> equal to the payload length (the three
  lemmas above). Its \<^verbatim>\<open>size\<close> field has 11 bits: it holds the payload length modulo 2048,
  which is the payload length only below 2048. A ring of 4096 bytes accepts a payload of
  2048 bytes; the send succeeds and writes a header with \<^verbatim>\<open>total_size\<close> 2048 and
  \<^verbatim>\<open>size\<close> 0, against the comment in the code that the two values are the same.
\<close>

theorem send_2048_bytes_truncates_size_field:
  "unat (rb_size (res ex_big CHAN_RES_X2I)) = 4096 \<and> unat (send_size (ex_msg 2048)) = 2048 \<and>
   fst (xdna_mailbox_send_msg ex_big (ex_msg 2048) 0) = Inr () \<and>
   filter is_io_write (trace (snd (xdna_mailbox_send_msg ex_big (ex_msg 2048) 0))) =
     [Memcpy_toio 0x101000 (pkg_bytes (pkg (pending_record 7 (ex_msg 2048) 0x1D000000))),
      Iowrite32 2064 0x200014] \<and>
   header (pkg (pending_record 7 (ex_msg 2048) 0x1D000000)) =
     \<lparr>total_size = 2048, size' = 0, rsvd0 = 0, protocol_version = 1, rsvd1 = 0,
      id' = 0x1D000000, opcode = 0x100\<rparr> \<and>
   take 16 (pkg_bytes (pkg (pending_record 7 (ex_msg 2048) 0x1D000000))) =
     [0, 8, 0, 0,  0, 0, 1, 0,  0, 0, 0, 0x1D,  0, 1, 0, 0] \<and>
   unat (size' (header (pkg (pending_record 7 (ex_msg 2048) 0x1D000000)))) \<noteq>
     unat (send_size (ex_msg 2048))"
proof -
  let ?m = "ex_msg 2048"
  let ?mb = "pending_record 7 ?m 0x1D000000"
  have acc: "send_accepts ex_big ?m"
    by (simp add: send_accepts_def IS_ALIGNED_4 payload_first_word_ex_msg TOMBSTONE_def)
       (simp add: ex_big_def ex_chan_def ex_res_def ex_msg_def)
  have al: "allocs ex_big = Some 7 # []"
    by (simp add: ex_big_def ex_chan_def)
  have mv: "(of_nat 0 :: u32) OR MAGIC_VAL = 0x1D000000"
    by (simp add: MAGIC_VAL_def)
  have mi: "unat ((0x1D000000 :: u32) AND NOT MAGIC_VAL_MASK) = 0"
    by (simp add: NOT_MAGIC_VAL_MASK_num)
  define s4 where "s4 = ex_big\<lparr>allocs := [],
       chan_idr := idr_store \<lparr>idr_rt = [(0, pending_record 7 ?m 0)], idr_next = 1\<rparr> 0 ?mb,
       trace := trace ex_big @
         [MB_DBG ''opcode 0x%x size %d id 0x%x'' [m_opcode ?m, ucast (send_size ?m), 0x1D000000]]\<rparr>"
  have u: "xdna_mailbox_send_msg ex_big ?m 0 =
      (case mailbox_send_msg s4 ?mb of
           (Inr u, s5) \<Rightarrow> (Inr (), s5)
         | (Inl e, s5) \<Rightarrow>
             (Inl e,
              s5\<lparr>chan_idr := idr_remove (chan_idr s5) 0,
                 trace := trace s5 @ [MB_DBG ''Error in mailbox send msg, ret %d'' [], Kfree 7]\<rparr>))"
    unfolding send_reaches_ring [OF acc al ex_big_alloc] Let_def s4_def mv mi ..
  have f: "x2i_tail s4 = 0" "x2i_head_reg s4 = 0" "rb_size (res s4 CHAN_RES_X2I) = 4096"
    "x2i_tmp_tail s4 ?mb = 2064" "pkg_size ?mb = 2064" "trace s4 = [MB_DBG ''opcode 0x%x size %d id 0x%x'' [0x100, 2048, 0x1D000000]]"
    "ring_addr s4 CHAN_RES_X2I 0 = 0x101000" "reg_addr s4 (mb_tail_ptr_reg (res s4 CHAN_RES_X2I)) = 0x200014"
    by (simp_all add: s4_def ex_big_def ex_chan_def ex_res_def x2i_head_reg_def x2i_tmp_tail_def
          reg_val_def reg_addr_def ring_addr_def load_bytes_4 pending_record_def ex_msg_def)
  have ns: "\<not> x2i_no_space s4 ?mb"
    by (simp add: x2i_no_space_def f)
  have nw: "\<not> x2i_wrap s4 ?mb"
    by (simp add: x2i_wrap_def f)
  have tk: "length (pkg_bytes (pkg ?mb)) \<le> 2064"
    by (subst length_pkg_bytes) (simp add: ex_msg_def)
  have 1: "fst (xdna_mailbox_send_msg ex_big ?m 0) = Inr ()"
    unfolding u by (simp add: send_msg_normal [OF ns nw])
  have 2: "filter is_io_write (trace (snd (xdna_mailbox_send_msg ex_big ?m 0))) =
     [Memcpy_toio 0x101000 (pkg_bytes (pkg ?mb)), Iowrite32 2064 0x200014]"
    unfolding u by (simp add: send_msg_normal [OF ns nw] tk f)
  have 3: "header (pkg ?mb) =
     \<lparr>total_size = 2048, size' = 0, rsvd0 = 0, protocol_version = 1, rsvd1 = 0,
      id' = 0x1D000000, opcode = 0x100\<rparr>"
    by (simp add: pending_record_def ex_msg_def MSG_PROTOCOL_VERSION_def)
  have 4: "take 16 (pkg_bytes (pkg ?mb)) = [0, 8, 0, 0,  0, 0, 1, 0,  0, 0, 0, 0x1D,  0, 1, 0, 0]"
    by (simp add: pkg_bytes_def header_bytes_def header_word1_def le32_def 3)
  have 5: "unat (rb_size (res ex_big CHAN_RES_X2I)) = 4096" "unat (send_size ?m) = 2048"
    by (simp_all add: ex_big_def ex_chan_def ex_res_def ex_msg_def)
  show ?thesis
    using 1 2 3 4 5 by simp
qed

end
